theory Spec2Isabelle
  imports Complex_Main "HOL-Library.Stream" "HOL-Library.Char_ord" "HOL-Library.List_Lexorder"
begin

section \<open>The random source\<close>

text \<open>
  The simulator of \<^verbatim>\<open>backend/app.py\<close> draws all its randomness from Python's process-wide
  \<^verbatim>\<open>random\<close> module. The model makes that source an explicit argument: an infinite tape of
  raw values, one consumed per draw, handed on to the next draw. Every function that draws
  takes the tape and returns the rest of it with its result, so "for every outcome of the
  random draws" is a statement for every tape.

  Python floats are modelled as reals: no property below depends on a rounding error.
  Each draw maps the raw value into the range the library call can return, so that every
  tape is a possible run and every possible run has a tape:
  \<^item> \<^verbatim>\<open>random.random()\<close> lies in \<open>[0, 1)\<close>: the fractional part of the raw value;
  \<^item> \<^verbatim>\<open>random.uniform(a, b)\<close> is \<open>a + (b - a) * random()\<close>, as in the library;
  \<^item> \<^verbatim>\<open>random.randint(a, b)\<close> is \<open>a\<close> plus a value below \<open>b - a + 1\<close>;
  \<^item> \<^verbatim>\<open>random.choice(seq)\<close> indexes \<open>seq\<close> with a value below its length and raises
    \<^verbatim>\<open>IndexError\<close> on an empty sequence;
  \<^item> \<^verbatim>\<open>random.gauss(mu, sigma)\<close> is \<open>mu + z * sigma\<close> for a normal deviate \<open>z\<close>; with
    \<open>sigma \<noteq> 0\<close> every real can come out, so the raw value is taken as the outcome itself.
\<close>

type_synonym rng = "real stream"

datatype error = IndexError | ValueError | AttributeError | SMTPException

definition random_py :: "rng \<Rightarrow> real \<times> rng" where
  "random_py g = (frac (shd g), stl g)"

definition uniform :: "real \<Rightarrow> real \<Rightarrow> rng \<Rightarrow> real \<times> rng" where
  "uniform a b g = (let (r, g') = random_py g in (a + (b - a) * r, g'))"

definition randbelow :: "int \<Rightarrow> rng \<Rightarrow> int \<times> rng" where
  "randbelow n g = (\<lfloor>shd g\<rfloor> mod n, stl g)"

definition randint :: "int \<Rightarrow> int \<Rightarrow> rng \<Rightarrow> int \<times> rng" where
  "randint a b g = (let (k, g') = randbelow (b - a + 1) g in (a + k, g'))"

definition choice :: "'a list \<Rightarrow> rng \<Rightarrow> error + ('a \<times> rng)" where
  "choice xs g =
     (if xs = [] then Inl IndexError
      else let (k, g') = randbelow (int (length xs)) g in Inr (xs ! nat k, g'))"

definition gauss :: "real \<Rightarrow> real \<Rightarrow> rng \<Rightarrow> real \<times> rng" where
  "gauss mu sigma g = (if sigma = 0 then mu else shd g, stl g)"

section \<open>Goal count model\<close>

text \<open>Python's \<^verbatim>\<open>round\<close> on a float: to the nearest integer, a tie to the even one.\<close>

definition py_round :: "real \<Rightarrow> int" where
  "py_round x =
     (let f = \<lfloor>x\<rfloor>; d = x - of_int f
      in if d < 1 / 2 then f else if 1 / 2 < d then f + 1 else if even f then f else f + 1)"

text \<open>\<^verbatim>\<open>poisson_approx\<close> (app.py, lines 92-98). No draw is made when \<open>lambda_param \<le> 0\<close>.\<close>

definition poisson_approx :: "real \<Rightarrow> rng \<Rightarrow> int \<times> rng" where
  "poisson_approx lambda_param g =
     (if lambda_param \<le> 0 then (0, g)
      else let (x, g') = gauss lambda_param (sqrt lambda_param) g;
               result = py_round x
           in (max 0 result, g'))"

text \<open>
  The goal counts of \<^verbatim>\<open>simulate_match\<close> (app.py, lines 104-112). The four draws are made
  in the source's order: the two uniform perturbations, then the two Gaussian draws.
\<close>

definition regulation_goals :: "real \<Rightarrow> real \<Rightarrow> rng \<Rightarrow> (real \<times> real \<times> int \<times> int) \<times> rng" where
  "regulation_goals team1_rating team2_rating g =
     (let rating_diff = (team1_rating - team2_rating) / 20;
          (u1, g1) = uniform (- 1) 1 g;
          base_goals_team1 = max 0.5 (1.5 + rating_diff + u1);
          (u2, g2) = uniform (- 1) 1 g1;
          base_goals_team2 = max 0.5 (1.5 - rating_diff + u2);
          (n1, g3) = poisson_approx base_goals_team1 g2;
          (n2, g4) = poisson_approx base_goals_team2 g3
      in ((base_goals_team1, base_goals_team2, min 7 n1, min 7 n2), g4))"

text \<open>The extra-time goal counts (app.py, lines 200-201).\<close>

definition extra_time_goals :: "real \<Rightarrow> real \<Rightarrow> rng \<Rightarrow> (int \<times> int) \<times> rng" where
  "extra_time_goals base_goals_team1 base_goals_team2 g =
     (let (n1, g1) = poisson_approx (max 0.2 (base_goals_team1 * 0.3)) g;
          (n2, g2) = poisson_approx (max 0.2 (base_goals_team2 * 0.3)) g1
      in ((min 3 n1, min 3 n2), g2))"

section \<open>Data model\<close>

text \<open>
  Players, teams, events and scorer entries are Python dicts. The records of a player and
  of a team keep every key of the stored documents (\<^verbatim>\<open>generate_squad\<close>, app.py, lines
  63-74, and \<^verbatim>\<open>api_create_team\<close>, lines 467-479, with the \<^verbatim>\<open>id\<close> that is added when a
  team is read), so that the dict comparison \<^verbatim>\<open>attacking_team == team1_data\<close> is the
  equality of the records. The key \<^verbatim>\<open>is_captain\<close> is present for the captain only.
\<close>

record player =
  player_id :: string
  name :: string
  natural_position :: string
  ratings :: "string \<rightharpoonup> int"
  jersey_number :: int
  is_captain :: "bool option"

record team =
  team_id :: "string option"
  country :: string
  manager :: string
  representative :: string
  email :: "string option"
  squad :: "player list"
  rating :: real
  registered_at :: string
  wins :: int
  losses :: int
  goals_for :: int
  goals_against :: int

record match_event =
  ev_minute :: int
  ev_type :: string
  ev_team :: string
  ev_player :: string

record goal_scorer =
  gs_minute :: int
  gs_player :: string
  gs_team :: string

text \<open>The local variables of \<^verbatim>\<open>simulate_match\<close>, threaded through its blocks.\<close>

record vars =
  v_base_goals_team1 :: real
  v_base_goals_team2 :: real
  v_team1_goals :: int
  v_team2_goals :: int
  v_goals_scored :: "string \<Rightarrow> int"
  v_match_events :: "match_event list"
  v_goal_scorers :: "goal_scorer list"
  v_decided_by :: "string option"
  v_penalty_score :: "string option"
  v_used_extra_time :: bool
  v_rng :: rng

definition mid_att :: "player list \<Rightarrow> player list" where
  "mid_att sq = filter (\<lambda>p. natural_position p \<in> set [''AT'', ''MD'']) sq"

definition keepers :: "player list \<Rightarrow> player list" where
  "keepers sq = filter (\<lambda>p. natural_position p = ''GK'') sq"

section \<open>Event timeline\<close>

text \<open>
  One pass of the body of the timeline loop after the clock check (app.py, lines 128-177).
  \<^verbatim>\<open>goals_scored\<close> is a dict with the two country names as its only keys, and only these
  are ever looked up; it is a total function here, two equal names sharing one entry as
  they share one key.
\<close>

definition timeline_phase :: "team \<Rightarrow> team \<Rightarrow> int \<Rightarrow> vars \<Rightarrow> error + vars" where
  "timeline_phase team1_data team2_data current_minute v =
     (case choice [team1_data, team2_data] (v_rng v) of
        Inl e \<Rightarrow> Inl e
      | Inr (attacking_team, g1) \<Rightarrow>
          let defending_team = (if attacking_team = team1_data then team2_data else team1_data);
              (event_roll, g2) = random_py g1
          in if event_roll < 0.1 \<and>
                v_goals_scored v (country attacking_team)
                  < (if attacking_team = team1_data then v_team1_goals v else v_team2_goals v)
             then (case choice (mid_att (squad attacking_team)) g2 of
                     Inl e \<Rightarrow> Inl e
                   | Inr (scorer, g3) \<Rightarrow> Inr (v
                       \<lparr>v_goals_scored := (v_goals_scored v)
                          (country attacking_team := v_goals_scored v (country attacking_team) + 1),
                        v_match_events := v_match_events v @
                          [\<lparr>ev_minute = current_minute, ev_type = ''goal'',
                            ev_team = country attacking_team, ev_player = name scorer\<rparr>],
                        v_goal_scorers := v_goal_scorers v @
                          [\<lparr>gs_minute = current_minute, gs_player = name scorer,
                            gs_team = country attacking_team\<rparr>],
                        v_rng := g3\<rparr>))
             else if event_roll < 0.2
             then (case choice (keepers (squad defending_team)) g2 of
                     Inl e \<Rightarrow> Inl e
                   | Inr (goalkeeper, g3) \<Rightarrow> Inr (v
                       \<lparr>v_match_events := v_match_events v @
                          [\<lparr>ev_minute = current_minute, ev_type = ''save'',
                            ev_team = country defending_team, ev_player = name goalkeeper\<rparr>],
                        v_rng := g3\<rparr>))
             else if event_roll < 0.3
             then (case choice (mid_att (squad attacking_team)) g2 of
                     Inl e \<Rightarrow> Inl e
                   | Inr (attacker, g3) \<Rightarrow> Inr (v
                       \<lparr>v_match_events := v_match_events v @
                          [\<lparr>ev_minute = current_minute, ev_type = ''chance'',
                            ev_team = country attacking_team, ev_player = name attacker\<rparr>],
                        v_rng := g3\<rparr>))
             else if event_roll < 0.4
             then (case choice (squad attacking_team) g2 of
                     Inl e \<Rightarrow> Inl e
                   | Inr (fouler, g3) \<Rightarrow> Inr (v
                       \<lparr>v_match_events := v_match_events v @
                          [\<lparr>ev_minute = current_minute, ev_type = ''foul'',
                            ev_team = country attacking_team, ev_player = name fouler\<rparr>],
                        v_rng := g3\<rparr>))
             else Inr (v\<lparr>v_rng := g2\<rparr>))"

text \<open>
  The \<^verbatim>\<open>while\<close> loop (app.py, lines 122-177): it runs while the clock is below 90 and a
  team is short of its target, advances the clock by 2 to 10 minutes, and leaves through
  \<^verbatim>\<open>break\<close> when the clock passes 90.
\<close>

function timeline_loop :: "team \<Rightarrow> team \<Rightarrow> int \<Rightarrow> vars \<Rightarrow> error + vars" where
  "timeline_loop team1_data team2_data current_minute v =
     (if current_minute < 90 \<and>
         (v_goals_scored v (country team1_data) < v_team1_goals v \<or>
          v_goals_scored v (country team2_data) < v_team2_goals v)
      then let m = current_minute + fst (randint 2 10 (v_rng v));
               v1 = v\<lparr>v_rng := snd (randint 2 10 (v_rng v))\<rparr>
           in if m > 90 then Inr v1
              else (case timeline_phase team1_data team2_data m v1 of
                      Inl e \<Rightarrow> Inl e
                    | Inr v2 \<Rightarrow> timeline_loop team1_data team2_data m v2)
      else Inr v)"
  by pat_completeness auto
termination
proof (relation "measure (\<lambda>(t1, t2, m, v). nat (90 - m))", goal_cases)
  case 1
  show ?case by simp
next
  case (2 team1_data team2_data current_minute v m v1 v2)
  have "0 \<le> \<lfloor>shd (v_rng v)\<rfloor> mod 9" by simp
  then have "2 \<le> fst (randint 2 10 (v_rng v))"
    by (simp add: randint_def randbelow_def)
  with 2 show ?case by simp
qed

declare timeline_loop.simps [simp del]

text \<open>
  The scorer entries of the non-detailed mode (app.py, lines 183-190): one per regulation
  goal, the scorer drawn before the minute.
\<close>

primrec basic_scorers :: "nat \<Rightarrow> team \<Rightarrow> vars \<Rightarrow> error + vars" where
  "basic_scorers 0 team_data v = Inr v"
| "basic_scorers (Suc n) team_data v =
     (case choice (mid_att (squad team_data)) (v_rng v) of
        Inl e \<Rightarrow> Inl e
      | Inr (scorer, g1) \<Rightarrow>
          let (minute, g2) = randint 5 85 g1
          in basic_scorers n team_data (v
               \<lparr>v_goal_scorers := v_goal_scorers v @
                  [\<lparr>gs_minute = minute, gs_player = name scorer, gs_team = country team_data\<rparr>],
                v_rng := g2\<rparr>))"

text \<open>
  Regulation time (app.py, lines 104-194): the goal counts, then the timeline in detailed
  mode, the sort of the event list at line 179, and the scorer entries otherwise.
\<close>

definition regulation :: "team \<Rightarrow> team \<Rightarrow> bool \<Rightarrow> rng \<Rightarrow> error + vars" where
  "regulation team1_data team2_data detailed g =
     (let ((b1, b2, n1, n2), g1) = regulation_goals (rating team1_data) (rating team2_data) g;
          v0 = \<lparr>v_base_goals_team1 = b1, v_base_goals_team2 = b2,
                v_team1_goals = n1, v_team2_goals = n2,
                v_goals_scored = (\<lambda>c. 0), v_match_events = [], v_goal_scorers = [],
                v_decided_by = None, v_penalty_score = None, v_used_extra_time = False,
                v_rng = g1\<rparr>
      in if detailed
         then (case timeline_loop team1_data team2_data 0 v0 of
                 Inl e \<Rightarrow> Inl e
               | Inr v1 \<Rightarrow> Inr (v1\<lparr>v_match_events := sort_key ev_minute (v_match_events v1)\<rparr>))
         else (case basic_scorers (nat n1) team1_data
                      (v0\<lparr>v_match_events := sort_key ev_minute (v_match_events v0)\<rparr>) of
                 Inl e \<Rightarrow> Inl e
               | Inr v1 \<Rightarrow> basic_scorers (nat n2) team2_data v1))"

section \<open>Knockout resolution\<close>

text \<open>
  The extra-time goal events of the detailed mode (app.py, lines 205-214): one per
  extra-time goal, the minute drawn before the scorer, appended to the event list and to
  the scorer list.
\<close>

primrec extra_time_events :: "nat \<Rightarrow> team \<Rightarrow> vars \<Rightarrow> error + vars" where
  "extra_time_events 0 team_data v = Inr v"
| "extra_time_events (Suc n) team_data v =
     (let (minute, g1) = randint 91 120 (v_rng v)
      in case choice (mid_att (squad team_data)) g1 of
           Inl e \<Rightarrow> Inl e
         | Inr (scorer, g2) \<Rightarrow>
             extra_time_events n team_data (v
               \<lparr>v_match_events := v_match_events v @
                  [\<lparr>ev_minute = minute, ev_type = ''goal'',
                    ev_team = country team_data, ev_player = name scorer\<rparr>],
                v_goal_scorers := v_goal_scorers v @
                  [\<lparr>gs_minute = minute, gs_player = name scorer, gs_team = country team_data\<rparr>],
                v_rng := g2\<rparr>))"

text \<open>
  One penalty attempt: \<^verbatim>\<open>if random.random() < p: t += 1\<close>, the statement that both
  loops of the shootout repeat for each side.
\<close>

definition penalty_kick :: "real \<Rightarrow> nat \<Rightarrow> rng \<Rightarrow> nat \<times> rng" where
  "penalty_kick p t g = (let (r, g') = random_py g in (if r < p then t + 1 else t, g'))"

text \<open>The initial rounds (app.py, lines 232-237); the state is \<open>(t1, t2, shots)\<close>.\<close>

primrec initial_kicks :: "nat \<Rightarrow> real \<Rightarrow> real \<Rightarrow> nat \<times> nat \<times> nat \<Rightarrow> rng \<Rightarrow> (nat \<times> nat \<times> nat) \<times> rng" where
  "initial_kicks 0 p1 p2 s g = (s, g)"
| "initial_kicks (Suc n) p1 p2 s g =
     (case s of (t1, t2, shots) \<Rightarrow>
        let (t1', g1) = penalty_kick p1 t1 g;
            (t2', g2) = penalty_kick p2 t2 g1
        in initial_kicks n p1 p2 (t1', t2', shots + 1) g2)"

text \<open>
  Sudden death (app.py, lines 239-243): \<^verbatim>\<open>while t1 == t2\<close>, one attempt per side in each
  round. Nothing bounds the number of rounds, so the loop is a partial function: \<open>None\<close>
  is the run that never leaves it.
\<close>

partial_function (option) sudden_death :: "real \<Rightarrow> real \<Rightarrow> nat \<Rightarrow> nat \<Rightarrow> rng \<Rightarrow> (nat \<times> nat \<times> rng) option" where
  "sudden_death p1 p2 t1 t2 g =
     (if t1 = t2
      then sudden_death p1 p2 (fst (penalty_kick p1 t1 g))
             (fst (penalty_kick p2 t2 (snd (penalty_kick p1 t1 g))))
             (snd (penalty_kick p2 t2 (snd (penalty_kick p1 t1 g))))
      else Some (t1, t2, g))"

text \<open>
  The success probabilities are compared with the draws, so their exact values matter and
  the rounding of the machine arithmetic is part of the model here. \<open>double x\<close> is the
  binary64 number nearest to \<open>x\<close>, a tie going to the even significand (53 bits; the
  ratings and probabilities are far from the overflow and subnormal ranges, which are left
  out). Elsewhere a float only meets a test that rounding cannot change (the expected goal
  counts are tested for being positive and are at least \<open>0.2\<close>) or a draw, which ranges
  over all reals here and over the doubles of \<open>[0, 1)\<close> in the code.
\<close>

definition binade :: "real \<Rightarrow> int" where
  "binade x = \<lfloor>log 2 \<bar>x\<bar>\<rfloor>"

definition double :: "real \<Rightarrow> real" where
  "double x =
     (if x = 0 then 0
      else of_int (py_round (x / 2 powi (binade x - 52))) * 2 powi (binade x - 52))"

text \<open>
  The success probabilities (app.py, lines 225-227): the difference of the ratings, the
  division by \<^verbatim>\<open>100.0\<close> and the sum with \<^verbatim>\<open>0.75\<close> are rounded, and the literals
  \<^verbatim>\<open>0.6\<close> and \<^verbatim>\<open>0.9\<close> are the doubles nearest to them.
\<close>

definition penalty_probabilities :: "real \<Rightarrow> real \<Rightarrow> real \<times> real" where
  "penalty_probabilities team1_rating team2_rating =
     (let diff = double (double (team1_rating - team2_rating) / 100)
      in (max (double 0.6) (min (double 0.9) (double (0.75 + diff))),
          max (double 0.6) (min (double 0.9) (double (0.75 - diff)))))"

text \<open>Decimal rendering of a number in an f-string.\<close>

definition digit_char :: "nat \<Rightarrow> char" where
  "digit_char d = ''0123456789'' ! d"

fun str_nat :: "nat \<Rightarrow> string" where
  "str_nat n = (if n < 10 then [digit_char n] else str_nat (n div 10) @ [digit_char (n mod 10)])"

declare str_nat.simps [simp del]

definition str_int :: "int \<Rightarrow> string" where
  "str_int i = (if i < 0 then CHR ''-'' # str_nat (nat (- i)) else str_nat (nat i))"

text \<open>
  The penalty shootout (app.py, lines 223-248): the tallies after the initial rounds and
  sudden death are written into \<^verbatim>\<open>penalty_score\<close> as the string \<^verbatim>\<open>f"{t1}-{t2}"\<close>; the goal
  totals are not touched. In detailed mode a marker event at minute 120 is appended.
\<close>

definition penalty_shootout :: "team \<Rightarrow> team \<Rightarrow> bool \<Rightarrow> vars \<Rightarrow> vars option" where
  "penalty_shootout team1_data team2_data detailed v =
     (let (p1, p2) = penalty_probabilities (rating team1_data) (rating team2_data);
          ((t1, t2, shots), g1) = initial_kicks 5 p1 p2 (0, 0, 0) (v_rng v)
      in case sudden_death p1 p2 t1 t2 g1 of
           None \<Rightarrow> None
         | Some (t1', t2', g2) \<Rightarrow>
             let penalty_score = str_nat t1' @ ''-'' @ str_nat t2'
             in Some (v
                  \<lparr>v_match_events :=
                     (if detailed
                      then v_match_events v @
                        [\<lparr>ev_minute = 120, ev_type = ''penalties'', ev_team = ''Both'',
                          ev_player = ''Shootout '' @ penalty_score\<rparr>]
                      else v_match_events v),
                   v_decided_by := Some ''penalties'',
                   v_penalty_score := Some penalty_score,
                   v_rng := g2\<rparr>))"

text \<open>
  Extra time (app.py, lines 198-217): the two goal counts, in detailed mode their goal
  events, and the new totals.
\<close>

definition extra_time_period :: "team \<Rightarrow> team \<Rightarrow> bool \<Rightarrow> vars \<Rightarrow> error + vars" where
  "extra_time_period team1_data team2_data detailed v =
     (let ((extra1, extra2), g1) =
            extra_time_goals (v_base_goals_team1 v) (v_base_goals_team2 v) (v_rng v);
          v1 = v\<lparr>v_used_extra_time := True, v_rng := g1\<rparr>
      in case (if detailed
               then (case extra_time_events (nat extra1) team1_data v1 of
                       Inl e \<Rightarrow> Inl e
                     | Inr v2 \<Rightarrow> extra_time_events (nat extra2) team2_data v2)
               else Inr v1) of
           Inl e \<Rightarrow> Inl e
         | Inr v3 \<Rightarrow> Inr (v3\<lparr>v_team1_goals := v_team1_goals v3 + extra1,
                              v_team2_goals := v_team2_goals v3 + extra2\<rparr>))"

text \<open>
  The knockout block (app.py, lines 197-248), entered when the match is a knockout match
  and regulation ended level: extra time, and the shootout when the totals are still level.
\<close>

definition knockout_extra_time :: "team \<Rightarrow> team \<Rightarrow> bool \<Rightarrow> vars \<Rightarrow> (error + vars) option" where
  "knockout_extra_time team1_data team2_data detailed v =
     (case extra_time_period team1_data team2_data detailed v of
        Inl e \<Rightarrow> Some (Inl e)
      | Inr v4 \<Rightarrow>
          if v_team1_goals v4 \<noteq> v_team2_goals v4
          then Some (Inr (v4\<lparr>v_decided_by := Some ''extra_time''\<rparr>))
          else map_option Inr (penalty_shootout team1_data team2_data detailed v4))"

section \<open>The match result\<close>

text \<open>
  \<^verbatim>\<open>str.split(sep)\<close> for a one-character separator, indexing of the list of fields, and
  \<^verbatim>\<open>int\<close> on a field. The only strings that reach \<^verbatim>\<open>int\<close> here are fields of a
  \<^verbatim>\<open>penalty_score\<close>; the model accepts a non-empty run of decimal digits and raises
  \<^verbatim>\<open>ValueError\<close> otherwise (the signs, blanks and underscores that Python also accepts
  are left out).
\<close>

fun split_on :: "char \<Rightarrow> string \<Rightarrow> string list" where
  "split_on c [] = [[]]"
| "split_on c (x # xs) =
     (if x = c then [] # split_on c xs
      else (case split_on c xs of
              [] \<Rightarrow> [[x]]
            | f # fs \<Rightarrow> (x # f) # fs))"

definition index_list :: "'a list \<Rightarrow> nat \<Rightarrow> error + 'a" where
  "index_list xs i = (if i < length xs then Inr (xs ! i) else Inl IndexError)"

definition digit_val :: "char \<Rightarrow> nat option" where
  "digit_val c = map_of (zip ''0123456789'' [0, 1, 2, 3, 4, 5, 6, 7, 8, 9]) c"

fun parse_digits :: "nat \<Rightarrow> string \<Rightarrow> nat option" where
  "parse_digits acc [] = Some acc"
| "parse_digits acc (c # cs) =
     (case digit_val c of None \<Rightarrow> None | Some d \<Rightarrow> parse_digits (10 * acc + d) cs)"

definition py_int :: "string \<Rightarrow> error + int" where
  "py_int s =
     (if s = [] then Inl ValueError
      else case parse_digits 0 s of None \<Rightarrow> Inl ValueError | Some n \<Rightarrow> Inr (int n))"

text \<open>\<^verbatim>\<open>int(penalty_score.split('-')[i])\<close>\<close>

definition penalty_field :: "string \<Rightarrow> nat \<Rightarrow> error + int" where
  "penalty_field ps i =
     (case index_list (split_on CHR ''-'' ps) i of Inl e \<Rightarrow> Inl e | Inr f \<Rightarrow> py_int f)"

text \<open>
  The \<^verbatim>\<open>winner\<close> entry of the result (app.py, lines 271-276). A \<^verbatim>\<open>penalty_score\<close> that is
  \<^verbatim>\<open>None\<close> or empty is false in the \<^verbatim>\<open>and\<close>, and the second team is named.
\<close>

definition winner_of :: "string \<Rightarrow> string \<Rightarrow> int \<Rightarrow> int \<Rightarrow> string option \<Rightarrow> bool \<Rightarrow> error + string" where
  "winner_of c1 c2 g1 g2 ps knockout =
     (if g1 > g2 then Inr c1
      else if g2 > g1 then Inr c2
      else if knockout
      then (case ps of
              None \<Rightarrow> Inr c2
            | Some s \<Rightarrow>
                if s = [] then Inr c2
                else (case penalty_field s 0 of
                        Inl e \<Rightarrow> Inl e
                      | Inr a \<Rightarrow> (case penalty_field s 1 of
                                   Inl e \<Rightarrow> Inl e
                                 | Inr b \<Rightarrow> Inr (if a > b then c1 else c2))))
      else Inr ''Draw'')"

text \<open>
  The returned dict (app.py, lines 265-285). The entries \<^verbatim>\<open>commentary\<close>,
  \<^verbatim>\<open>match_preview\<close> and \<^verbatim>\<open>simulated_at\<close> come from the text generator and the clock;
  the generator only reads the event list, its exceptions are caught (lines 255-263), and
  no other entry depends on them, so they are left out.
\<close>

record match_result =
  team1 :: string
  team2 :: string
  score :: string
  team1_goals :: int
  team2_goals :: int
  winner :: string
  events :: "match_event list"
  goal_scorers :: "goal_scorer list"
  decided_by :: "string option"
  penalty_score :: "string option"
  extra_time :: bool

definition match_result_of :: "team \<Rightarrow> team \<Rightarrow> bool \<Rightarrow> vars \<Rightarrow> error + match_result" where
  "match_result_of team1_data team2_data knockout v =
     (case winner_of (country team1_data) (country team2_data)
             (v_team1_goals v) (v_team2_goals v) (v_penalty_score v) knockout of
        Inl e \<Rightarrow> Inl e
      | Inr w \<Rightarrow> Inr
          \<lparr>team1 = country team1_data, team2 = country team2_data,
           score = str_int (v_team1_goals v) @ ''-'' @ str_int (v_team2_goals v),
           team1_goals = v_team1_goals v, team2_goals = v_team2_goals v,
           winner = w,
           events = v_match_events v, goal_scorers = v_goal_scorers v,
           decided_by = v_decided_by v, penalty_score = v_penalty_score v,
           extra_time = v_used_extra_time v\<rparr>)"

text \<open>
  \<^verbatim>\<open>simulate_match\<close> (app.py, lines 103-285). The value is \<open>None\<close> when the call never
  returns, \<open>Some (Inl e)\<close> when it raises \<open>e\<close> and \<open>Some (Inr r)\<close> when it returns \<open>r\<close>.
\<close>

definition simulate_match :: "team \<Rightarrow> team \<Rightarrow> bool \<Rightarrow> bool \<Rightarrow> rng \<Rightarrow> (error + match_result) option" where
  "simulate_match team1_data team2_data detailed knockout g =
     (case regulation team1_data team2_data detailed g of
        Inl e \<Rightarrow> Some (Inl e)
      | Inr v \<Rightarrow>
          (case (if knockout \<and> v_team1_goals v = v_team2_goals v
                 then knockout_extra_time team1_data team2_data detailed v
                 else Some (Inr v)) of
             None \<Rightarrow> None
           | Some (Inl e) \<Rightarrow> Some (Inl e)
           | Some (Inr v') \<Rightarrow> Some (match_result_of team1_data team2_data knockout v')))"

section \<open>Tournament bracket\<close>

text \<open>
  The Firestore collections \<^verbatim>\<open>teams\<close> and \<^verbatim>\<open>matches\<close> are lists in the order in which
  \<^verbatim>\<open>stream()\<close> yields their documents, and \<^verbatim>\<open>add\<close> puts a document at the end. Document
  ids are opaque and no modelled function reads them. \<^verbatim>\<open>datetime.now().isoformat()\<close> reads
  the next value of a clock. Failures of the store itself are outside the model.
\<close>

record match_doc =
  m_round :: "string option"
  m_team1 :: team
  m_team2 :: team
  m_status :: "string option"
  m_created_at :: "string option"
  m_result :: "match_result option"

record world =
  teams :: "team list"
  matches :: "match_doc list"
  clock :: "string stream"

definition add_match :: "string \<Rightarrow> team \<Rightarrow> team \<Rightarrow> world \<Rightarrow> world" where
  "add_match r t1 t2 w =
     w\<lparr>matches := matches w @
          [\<lparr>m_round = Some r, m_team1 = t1, m_team2 = t2, m_status = Some ''scheduled'',
            m_created_at = Some (shd (clock w)), m_result = None\<rparr>],
       clock := stl (clock w)\<rparr>"

text \<open>\<^verbatim>\<open>_get_team_by_country\<close> (app.py, lines 320-332): the first team with that name.\<close>

definition get_team_by_country :: "team list \<Rightarrow> string option \<Rightarrow> team option" where
  "get_team_by_country ts c =
     (case c of
        None \<Rightarrow> None
      | Some n \<Rightarrow> if n = [] then None else find (\<lambda>t. country t = n) ts)"

definition all_completed :: "match_doc list \<Rightarrow> bool" where
  "all_completed ms = (length ms > 0 \<and> list_all (\<lambda>m. m_status m = Some ''completed'') ms)"

definition in_round :: "string \<Rightarrow> match_doc list \<Rightarrow> match_doc list" where
  "in_round r ms = filter (\<lambda>m. m_round m = Some r) ms"

definition created_key :: "match_doc \<Rightarrow> string" where
  "created_key m = (case m_created_at m of None \<Rightarrow> [] | Some s \<Rightarrow> s)"

text \<open>The loop that collects the teams of the winners (app.py, lines 361-366 and 381-386).\<close>

definition round_winners :: "team list \<Rightarrow> match_doc list \<Rightarrow> team list" where
  "round_winners ts ms =
     List.map_filter (\<lambda>m. get_team_by_country ts (map_option winner (m_result m))) ms"

text \<open>
  \<^verbatim>\<open>_progress_tournament_if_ready\<close> (app.py, lines 334-397). Both steps test the rounds of
  the snapshot \<^verbatim>\<open>all_matches\<close> taken at the start.
\<close>

definition progress_tournament_if_ready :: "world \<Rightarrow> world" where
  "progress_tournament_if_ready w =
     (let all_matches = matches w;
          quarterfinal = in_round ''quarterfinal'' all_matches;
          semifinal = in_round ''semifinal'' all_matches;
          final = in_round ''final'' all_matches;
          w1 = (if all_completed quarterfinal \<and> length semifinal = 0
                then let qfs = sort_key created_key quarterfinal;
                         winners = round_winners (teams w) qfs
                     in if length winners \<ge> 4
                        then add_match ''semifinal'' (winners ! 2) (winners ! 3)
                               (add_match ''semifinal'' (winners ! 0) (winners ! 1) w)
                        else w
                else w)
      in if all_completed semifinal \<and> length final = 0
         then let sfs = sort_key created_key semifinal;
                  winners = round_winners (teams w1) sfs
              in if length winners \<ge> 2
                 then add_match ''final'' (winners ! 0) (winners ! 1) w1
                 else w1
         else w1)"

text \<open>\<^verbatim>\<open>api_create_tournament\<close> (app.py, lines 715-736), with the JSON body and the status.\<close>

record response =
  r_success :: bool
  r_error :: "string option"
  r_status :: nat

definition api_create_tournament :: "world \<Rightarrow> response \<times> world" where
  "api_create_tournament w =
     (let ts = teams w
      in if length ts < 8
         then (\<lparr>r_success = False,
                 r_error = Some ''Need exactly 8 teams to create tournament'',
                 r_status = 400\<rparr>, w)
         else (\<lparr>r_success = True, r_error = None, r_status = 200\<rparr>,
               fold (\<lambda>i. add_match ''quarterfinal'' (ts ! i) (ts ! (i + 1))) [0, 2, 4, 6]
                 (w\<lparr>matches := []\<rparr>)))"

section \<open>Match completion email\<close>

text \<open>
  \<^verbatim>\<open>send_match_completion_email\<close> (email_service.py, lines 11-105). The environment
  variables and the SMTP session are parameters: \<open>smtp msg\<close> is true when the session
  delivers \<open>msg\<close> and false when it raises. The value stored under \<^verbatim>\<open>penalty_score\<close> is
  looked at as a Python value, since the function calls \<^verbatim>\<open>.get\<close> on it: only a dict has
  that method. The bullet of the scorer lines is written \<open>*\<close>, and \<^verbatim>\<open>capitalize\<close> covers
  ASCII letters.
\<close>

record email_env =
  email_user :: "string option"
  email_password :: "string option"

record email_message =
  msg_from :: string
  msg_to :: string
  msg_subject :: string
  msg_body :: string

datatype pyval = PyNone | PyStr string | PyDict "(string \<times> int) list"

definition py_get :: "pyval \<Rightarrow> string \<Rightarrow> int \<Rightarrow> error + int" where
  "py_get v k d =
     (case v of
        PyDict kvs \<Rightarrow> Inr (case map_of kvs k of None \<Rightarrow> d | Some x \<Rightarrow> x)
      | PyStr s \<Rightarrow> Inl AttributeError
      | PyNone \<Rightarrow> Inl AttributeError)"

definition penalty_score_value :: "match_result \<Rightarrow> pyval" where
  "penalty_score_value r = (case penalty_score r of None \<Rightarrow> PyNone | Some s \<Rightarrow> PyStr s)"

definition truthy :: "string option \<Rightarrow> bool" where
  "truthy s = (case s of None \<Rightarrow> False | Some x \<Rightarrow> x \<noteq> [])"

definition capitalize :: "string \<Rightarrow> string" where
  "capitalize s =
     (case s of
        [] \<Rightarrow> []
      | c # cs \<Rightarrow>
          (if CHR ''a'' \<le> c \<and> c \<le> CHR ''z'' then char_of (of_char c - (32 :: nat)) else c) #
          map (\<lambda>x. if CHR ''A'' \<le> x \<and> x \<le> CHR ''Z'' then char_of (of_char x + (32 :: nat)) else x) cs)"

fun join_with :: "string \<Rightarrow> string list \<Rightarrow> string" where
  "join_with sep [] = []"
| "join_with sep [x] = x"
| "join_with sep (x # y # ys) = x @ sep @ join_with sep (y # ys)"

definition scorers_text_of :: "goal_scorer list \<Rightarrow> string" where
  "scorers_text_of gs =
     (if gs = [] then []
      else [CHR 0x0A, CHR 0x0A] @ ''Goal Scorers:'' @ [CHR 0x0A] @
           concat (map (\<lambda>s. ''  * '' @ gs_player s @ '' ('' @ gs_team s @ '') - '' @
                              str_int (gs_minute s) @ [CHR 0x27, CHR 0x0A]) gs))"

definition send_attempt :: "email_env \<Rightarrow> (email_message \<Rightarrow> bool) \<Rightarrow> match_doc \<Rightarrow> match_result \<Rightarrow> error + bool" where
  "send_attempt env smtp match_data result =
     (if \<not> truthy (email_user env) \<or> \<not> truthy (email_password env) then Inr False
      else
        let sender_email = (case email_user env of None \<Rightarrow> [] | Some x \<Rightarrow> x);
            round_name = capitalize (case m_round match_data of None \<Rightarrow> ''Match'' | Some x \<Rightarrow> x);
            team1_name = country (m_team1 match_data);
            team2_name = country (m_team2 match_data);
            federation_emails =
              (case email (m_team1 match_data) of
                 None \<Rightarrow> [] | Some a \<Rightarrow> if a = [] then [] else [a]) @
              (case email (m_team2 match_data) of
                 None \<Rightarrow> [] | Some a \<Rightarrow> if a = [] then [] else [a])
        in if federation_emails = [] then Inr False
           else
             let scoreline = team1_name @ '' '' @ str_int (team1_goals result) @ '' - '' @
                             str_int (team2_goals result) @ '' '' @ team2_name;
                 scorers_text = scorers_text_of (goal_scorers result)
             in case (if decided_by result = Some ''penalties''
                      then (case py_get (penalty_score_value result) ''team1'' 0 of
                              Inl e \<Rightarrow> Inl e
                            | Inr a \<Rightarrow>
                                (case py_get (penalty_score_value result) ''team2'' 0 of
                                   Inl e \<Rightarrow> Inl e
                                 | Inr b \<Rightarrow> Inr ([CHR 0x0A, CHR 0x0A] @ ''Decided by penalties: '' @
                                                  str_int a @ '' - '' @ str_int b)))
                      else Inr []) of
                  Inl e \<Rightarrow> Inl e
                | Inr penalty_info \<Rightarrow>
                    if smtp
                         \<lparr>msg_from = sender_email,
                          msg_to = join_with '', '' federation_emails,
                          msg_subject = ''Match Result: '' @ team1_name @ '' vs '' @ team2_name @
                                        '' - '' @ round_name,
                          msg_body = [CHR 0x0A] @
                            ''African Nations League - Match Completion Notification'' @
                            [CHR 0x0A, CHR 0x0A] @ ''Round: '' @ round_name @
                            [CHR 0x0A] @ ''Match: '' @ scoreline @
                            [CHR 0x0A] @ ''Winner: '' @ winner result @
                            [CHR 0x0A] @ penalty_info @ [CHR 0x0A] @ scorers_text @
                            [CHR 0x0A, CHR 0x0A] @
                            ''This is an automated notification from the African Nations League system.'' @
                            [CHR 0x0A]\<rparr>
                    then Inr True
                    else Inl SMTPException)"

text \<open>The \<^verbatim>\<open>try\<close> with its catch-all handler, which returns \<^verbatim>\<open>False\<close>.\<close>

definition send_match_completion_email :: "email_env \<Rightarrow> (email_message \<Rightarrow> bool) \<Rightarrow> match_doc \<Rightarrow> match_result \<Rightarrow> bool" where
  "send_match_completion_email env smtp match_data result =
     (case send_attempt env smtp match_data result of Inl e \<Rightarrow> False | Inr b \<Rightarrow> b)"

section \<open>Notions used in the statements\<close>

text \<open>The variables that only the knockout block assigns after the goal counts are drawn.\<close>

definition kept :: "vars \<Rightarrow> real \<times> real \<times> int \<times> int \<times> string option \<times> string option \<times> bool" where
  "kept v = (v_base_goals_team1 v, v_base_goals_team2 v, v_team1_goals v, v_team2_goals v,
             v_decided_by v, v_penalty_score v, v_used_extra_time v)"

text \<open>
  Round \<open>k\<close> of sudden death on the tape \<open>g\<close> separates level tallies when exactly one
  of its two attempts succeeds.
\<close>

definition decisive :: "real \<Rightarrow> real \<Rightarrow> rng \<Rightarrow> nat \<Rightarrow> bool" where
  "decisive p1 p2 g k = ((frac (g !! (2 * k)) < p1) \<noteq> (frac (g !! (2 * k + 1)) < p2))"

text \<open>
  The outcome of round \<open>k\<close> on the tape \<open>g\<close>: whether the attempt of the first side and
  the attempt of the second side succeed.
\<close>

definition round_outcome :: "real \<Rightarrow> real \<Rightarrow> rng \<Rightarrow> nat \<Rightarrow> bool \<times> bool" where
  "round_outcome p1 p2 g k = (frac (g !! (2 * k)) < p1, frac (g !! (2 * k + 1)) < p2)"

text \<open>A round leaves level tallies level when both attempts succeed or both fail.\<close>

definition level_round :: "bool \<times> bool \<Rightarrow> bool" where
  "level_round out = (fst out = snd out)"

text \<open>
  The probability of the outcome of a round, and of a sequence of rounds: the draws of
  \<^verbatim>\<open>random.random()\<close> are independent and uniform on \<open>[0, 1)\<close>, so an attempt succeeds
  with the probability of its side. This is exact for the code: its draw is \<open>k / 2 ^ 53\<close>
  with \<open>k\<close> uniform below \<open>2 ^ 53\<close>, and a success probability is a double between \<open>1 / 2\<close>
  and \<open>1\<close>, a multiple of \<open>1 / 2 ^ 53\<close>.
\<close>

definition outcome_weight :: "real \<Rightarrow> real \<Rightarrow> bool \<times> bool \<Rightarrow> real" where
  "outcome_weight p1 p2 out = (if fst out then p1 else 1 - p1) * (if snd out then p2 else 1 - p2)"

definition sequence_weight :: "real \<Rightarrow> real \<Rightarrow> (bool \<times> bool) list \<Rightarrow> real" where
  "sequence_weight p1 p2 outs = prod_list (map (outcome_weight p1 p2) outs)"

text \<open>
  The four outcomes of a round, the sequences of \<open>n\<close> rounds in which every round is
  level, and the probability of these sequences: the probability that sudden death is
  still running after \<open>n\<close> rounds.
\<close>

definition round_outcomes :: "(bool \<times> bool) list" where
  "round_outcomes = [(True, True), (True, False), (False, True), (False, False)]"

definition level_sequences :: "nat \<Rightarrow> (bool \<times> bool) list list" where
  "level_sequences n = filter (list_all level_round) (List.n_lists n round_outcomes)"

definition still_level_probability :: "real \<Rightarrow> real \<Rightarrow> nat \<Rightarrow> real" where
  "still_level_probability p1 p2 n = sum_list (map (sequence_weight p1 p2) (level_sequences n))"

text \<open>The number of scorer entries attributed to a team.\<close>

definition scorer_count :: "string \<Rightarrow> goal_scorer list \<Rightarrow> int" where
  "scorer_count c gs = int (length (filter (\<lambda>s. gs_team s = c) gs))"

text \<open>
  The invariant of the timeline: the scorer entries of each team are as many as its
  tally, and no tally is above its target.
\<close>

definition tallied :: "team \<Rightarrow> team \<Rightarrow> vars \<Rightarrow> bool" where
  "tallied t1 t2 u =
     (scorer_count (country t1) (v_goal_scorers u) = v_goals_scored u (country t1) \<and>
      scorer_count (country t2) (v_goal_scorers u) = v_goals_scored u (country t2) \<and>
      v_goals_scored u (country t1) \<le> v_team1_goals u \<and>
      v_goals_scored u (country t2) \<le> v_team2_goals u)"

section \<open>Concrete teams, tapes and states\<close>

definition squad_player :: "nat \<Rightarrow> string \<Rightarrow> string \<Rightarrow> player" where
  "squad_player n who pos =
     \<lparr>player_id = ''player_'' @ str_nat n, name = who, natural_position = pos,
      ratings = [''GK'' \<mapsto> if pos = ''GK'' then 80 else 30,
                 ''DF'' \<mapsto> if pos = ''DF'' then 80 else 30,
                 ''MD'' \<mapsto> if pos = ''MD'' then 80 else 30,
                 ''AT'' \<mapsto> if pos = ''AT'' then 80 else 30],
      jersey_number = int n, is_captain = None\<rparr>"

definition ghana :: team where
  "ghana =
     \<lparr>team_id = Some ''team-ghana'', country = ''Ghana'', manager = ''Kwesi Appiah'',
      representative = ''Ama Owusu'', email = Some ''fa@ghana.example'',
      squad = [squad_player 1 ''Kofi Mensah'' ''AT'', squad_player 2 ''Kwame Okoro'' ''GK''],
      rating = 70, registered_at = ''2025-01-02T08:00:00'',
      wins = 0, losses = 0, goals_for = 0, goals_against = 0\<rparr>"

definition mali :: team where
  "mali =
     \<lparr>team_id = Some ''team-mali'', country = ''Mali'', manager = ''Eric Chelle'',
      representative = ''Awa Keita'', email = Some ''fa@mali.example'',
      squad = [squad_player 1 ''Sekou Traore'' ''MD'', squad_player 2 ''Musa Diallo'' ''GK''],
      rating = 70, registered_at = ''2025-01-02T08:05:00'',
      wins = 0, losses = 0, goals_for = 0, goals_against = 0\<rparr>"

definition tape_2_1 :: rng where
  "tape_2_1 = 0.5 ## 0.5 ## 2 ## 1 ## 0 ## 10 ## 0 ## 40 ## 0 ## 62 ## sconst 0"

definition result_2_1 :: match_result where
  "result_2_1 =
     \<lparr>team1 = ''Ghana'', team2 = ''Mali'', score = ''2-1'', team1_goals = 2, team2_goals = 1,
      winner = ''Ghana'', events = [],
      goal_scorers =
        [\<lparr>gs_minute = 15, gs_player = ''Kofi Mensah'', gs_team = ''Ghana''\<rparr>,
         \<lparr>gs_minute = 45, gs_player = ''Kofi Mensah'', gs_team = ''Ghana''\<rparr>,
         \<lparr>gs_minute = 67, gs_player = ''Sekou Traore'', gs_team = ''Mali''\<rparr>],
      decided_by = None, penalty_score = None, extra_time = False\<rparr>"

definition tape_et :: rng where
  "tape_et = 0.5 ## 0.5 ## 0 ## 0 ## 1 ## 0 ## sconst 0"

definition result_et :: match_result where
  "result_et =
     \<lparr>team1 = ''Ghana'', team2 = ''Mali'', score = ''1-0'', team1_goals = 1, team2_goals = 0,
      winner = ''Ghana'', events = [], goal_scorers = [],
      decided_by = Some ''extra_time'', penalty_score = None, extra_time = True\<rparr>"

definition tape_penalties :: rng where
  "tape_penalties =
     0.5 ## 0.5 ## 0 ## 0 ## 0 ## 0 ##
     0.1 ## 0.1 ## 0.1 ## 0.1 ## 0.1 ## 0.1 ## 0.1 ## 0.1 ## 0.1 ## 0.1 ##
     0.9 ## 0.9 ## 0.9 ## 0.1 ## sconst 0"

definition result_penalties :: match_result where
  "result_penalties =
     \<lparr>team1 = ''Ghana'', team2 = ''Mali'', score = ''0-0'', team1_goals = 0, team2_goals = 0,
      winner = ''Mali'', events = [], goal_scorers = [],
      decided_by = Some ''penalties'', penalty_score = Some ''5-6'', extra_time = True\<rparr>"

text \<open>The state after a goalless regulation time, and the state after a goalless extra time.\<close>

definition vars_tied :: vars where
  "vars_tied =
     \<lparr>v_base_goals_team1 = 1.5, v_base_goals_team2 = 1.5,
      v_team1_goals = 0, v_team2_goals = 0,
      v_goals_scored = (\<lambda>c. 0), v_match_events = [], v_goal_scorers = [],
      v_decided_by = None, v_penalty_score = None, v_used_extra_time = False,
      v_rng = 0 ## 0 ## 0.1 ## 0.1 ## 0.1 ## 0.1 ## 0.1 ## 0.1 ## 0.1 ## 0.1 ## 0.1 ## 0.1 ##
              0.9 ## 0.9 ## 0.9 ## 0.1 ## sconst 0\<rparr>"

definition vars_level :: vars where
  "vars_level =
     \<lparr>v_base_goals_team1 = 1.5, v_base_goals_team2 = 1.5,
      v_team1_goals = 0, v_team2_goals = 0,
      v_goals_scored = (\<lambda>c. 0), v_match_events = [], v_goal_scorers = [],
      v_decided_by = None, v_penalty_score = None, v_used_extra_time = True,
      v_rng = 0.1 ## 0.1 ## 0.1 ## 0.1 ## 0.1 ## 0.1 ## 0.1 ## 0.1 ## 0.1 ## 0.1 ##
              0.9 ## 0.9 ## 0.9 ## 0.1 ## sconst 0\<rparr>"

definition tape_level :: rng where
  "tape_level = 0.5 ## 0.5 ## 0 ## 0 ## 0 ## 0 ## sconst 0"

definition league_env :: email_env where
  "league_env = \<lparr>email_user = Some ''league@anl.example'', email_password = Some ''app-password''\<rparr>"

definition quarterfinal_doc :: "match_result \<Rightarrow> match_doc" where
  "quarterfinal_doc r =
     \<lparr>m_round = Some ''quarterfinal'', m_team1 = ghana, m_team2 = mali,
      m_status = Some ''completed'', m_created_at = Some ''2025-01-10T18:00:00'',
      m_result = Some r\<rparr>"

definition team_named :: "string \<Rightarrow> team" where
  "team_named c =
     \<lparr>team_id = Some (''team-'' @ c), country = c, manager = ''Manager of '' @ c,
      representative = ''Delegate of '' @ c, email = None, squad = [], rating = 70,
      registered_at = ''2025-01-02T08:00:00'',
      wins = 0, losses = 0, goals_for = 0, goals_against = 0\<rparr>"

definition world_nine :: world where
  "world_nine =
     \<lparr>teams = map team_named [''Algeria'', ''Benin'', ''Chad'', ''Egypt'', ''Ghana'', ''Kenya'',
                                ''Mali'', ''Niger'', ''Togo''],
      matches = [],
      clock = sconst ''2025-01-01T09:00:00''\<rparr>"

definition completed_quarterfinal :: "string \<Rightarrow> string \<Rightarrow> string \<Rightarrow> string \<Rightarrow> match_doc" where
  "completed_quarterfinal a b stamp w =
     \<lparr>m_round = Some ''quarterfinal'', m_team1 = team_named a, m_team2 = team_named b,
      m_status = Some ''completed'', m_created_at = Some stamp,
      m_result = Some
        \<lparr>team1 = a, team2 = b, score = ''1-0'', team1_goals = 1, team2_goals = 0, winner = w,
         events = [], goal_scorers = [], decided_by = None, penalty_score = None,
         extra_time = False\<rparr>\<rparr>"

definition world_quarterfinals_played :: world where
  "world_quarterfinals_played =
     \<lparr>teams = map team_named [''Algeria'', ''Benin'', ''Chad'', ''Egypt'', ''Ghana'', ''Kenya'',
                                ''Mali'', ''Niger''],
      matches =
        [completed_quarterfinal ''Ghana'' ''Kenya'' ''09:03'' ''Ghana'',
         completed_quarterfinal ''Algeria'' ''Benin'' ''09:01'' ''Algeria'',
         completed_quarterfinal ''Mali'' ''Niger'' ''09:04'' ''Mali'',
         completed_quarterfinal ''Chad'' ''Egypt'' ''09:02'' ''Chad''],
      clock = ''12:00'' ## ''12:01'' ## sconst ''12:02''\<rparr>"

definition tape_quiet :: rng where
  "tape_quiet = 0.5 ## 0.5 ## 1 ## 0 ## sconst 8.5"

definition result_quiet :: match_result where
  "result_quiet =
     \<lparr>team1 = ''Ghana'', team2 = ''Mali'', score = ''1-0'', team1_goals = 1, team2_goals = 0,
      winner = ''Ghana'', events = [], goal_scorers = [],
      decided_by = None, penalty_score = None, extra_time = False\<rparr>"

definition tape_unsorted :: rng where
  "tape_unsorted = 0.5 ## 0.5 ## 0 ## 0 ## 2 ## 0 ## 19 ## 0 ## 4 ## 0 ## sconst 0"

definition result_unsorted :: match_result where
  "result_unsorted =
     \<lparr>team1 = ''Ghana'', team2 = ''Mali'', score = ''2-0'', team1_goals = 2, team2_goals = 0,
      winner = ''Ghana'',
      events =
        [\<lparr>ev_minute = 110, ev_type = ''goal'', ev_team = ''Ghana'', ev_player = ''Kofi Mensah''\<rparr>,
         \<lparr>ev_minute = 95, ev_type = ''goal'', ev_team = ''Ghana'', ev_player = ''Kofi Mensah''\<rparr>],
      goal_scorers =
        [\<lparr>gs_minute = 110, gs_player = ''Kofi Mensah'', gs_team = ''Ghana''\<rparr>,
         \<lparr>gs_minute = 95, gs_player = ''Kofi Mensah'', gs_team = ''Ghana''\<rparr>],
      decided_by = Some ''extra_time'', penalty_score = None, extra_time = True\<rparr>"

section \<open>Draws on a tape with a known head\<close>

lemma random_py_SCons: "random_py (x ## g) = (frac x, g)"
  by (simp add: random_py_def)

lemma uniform_SCons: "uniform a b (x ## g) = (a + (b - a) * frac x, g)"
  by (simp add: uniform_def random_py_def)

lemma randint_SCons: "randint a b (x ## g) = (a + \<lfloor>x\<rfloor> mod (b - a + 1), g)"
  by (simp add: randint_def randbelow_def)

lemma choice_SCons:
  "xs \<noteq> [] \<Longrightarrow> choice xs (x ## g) = Inr (xs ! nat (\<lfloor>x\<rfloor> mod int (length xs)), g)"
  by (simp add: choice_def randbelow_def)

lemma poisson_approx_SCons:
  "0 < lam \<Longrightarrow> poisson_approx lam (x ## g) = (max 0 (py_round x), g)"
  by (simp add: poisson_approx_def gauss_def)

lemma regulation_goals_SCons:
  "regulation_goals r1 r2 (x1 ## x2 ## x3 ## x4 ## g) =
     ((max 0.5 (1.5 + (r1 - r2) / 20 + (2 * frac x1 - 1)),
       max 0.5 (1.5 - (r1 - r2) / 20 + (2 * frac x2 - 1)),
       min 7 (max 0 (py_round x3)), min 7 (max 0 (py_round x4))), g)"
proof -
  have p: "\<And>b x g. poisson_approx (max 0.5 b) (x ## g) = (max 0 (py_round x), g)"
    by (rule poisson_approx_SCons) simp
  show ?thesis
    unfolding regulation_goals_def Let_def uniform_SCons prod.case p
    by simp
qed

lemma extra_time_goals_SCons:
  "extra_time_goals b1 b2 (x1 ## x2 ## g) =
     ((min 3 (max 0 (py_round x1)), min 3 (max 0 (py_round x2))), g)"
proof -
  have p: "\<And>b x g. poisson_approx (max 0.2 b) (x ## g) = (max 0 (py_round x), g)"
    by (rule poisson_approx_SCons) simp
  show ?thesis
    unfolding extra_time_goals_def Let_def p prod.case
    by simp
qed

section \<open>Rendering and reading the penalty score\<close>

lemma digit_cases: "d < 10 \<Longrightarrow> d \<in> {0, 1, 2, 3, 4, 5, 6, 7, 8, 9 :: nat}"
  by auto

lemma digit_char_not_dash: "d < 10 \<Longrightarrow> digit_char d \<noteq> CHR ''-''"
  by (drule digit_cases) (auto simp: digit_char_def)

lemma digit_val_digit_char: "d < 10 \<Longrightarrow> digit_val (digit_char d) = Some d"
  by (drule digit_cases) (auto simp: digit_char_def digit_val_def)

lemma str_nat_no_dash: "CHR ''-'' \<notin> set (str_nat n)"
proof (induction n rule: str_nat.induct)
  case (1 n)
  show ?case
  proof (cases "n < 10")
    case True
    then show ?thesis using digit_char_not_dash [of n] by (simp add: str_nat.simps [of n])
  next
    case False
    have "n mod 10 < 10" by simp
    then have "digit_char (n mod 10) \<noteq> CHR ''-''" by (rule digit_char_not_dash)
    with False 1 show ?thesis by (auto simp add: str_nat.simps [of n])
  qed
qed

lemma str_nat_nonempty: "str_nat n \<noteq> []"
  by (subst str_nat.simps) simp

lemma parse_digits_append:
  "parse_digits acc (xs @ ys) =
     (case parse_digits acc xs of None \<Rightarrow> None | Some a \<Rightarrow> parse_digits a ys)"
  by (induction xs arbitrary: acc) (auto split: option.splits)

lemma parse_digits_str_nat: "parse_digits 0 (str_nat n) = Some n"
proof (induction n rule: str_nat.induct)
  case (1 n)
  show ?case
  proof (cases "n < 10")
    case True
    then show ?thesis by (simp add: str_nat.simps [of n] digit_val_digit_char)
  next
    case False
    have "digit_val (digit_char (n mod 10)) = Some (n mod 10)"
      by (rule digit_val_digit_char) simp
    with False 1 show ?thesis
      by (simp add: str_nat.simps [of n] parse_digits_append)
  qed
qed

lemma py_int_str_nat: "py_int (str_nat n) = Inr (int n)"
  by (simp add: py_int_def str_nat_nonempty parse_digits_str_nat)

lemma split_on_no_sep: "c \<notin> set xs \<Longrightarrow> split_on c xs = [xs]"
  by (induction xs) auto

lemma split_on_append: "c \<notin> set xs \<Longrightarrow> split_on c (xs @ c # ys) = xs # split_on c ys"
  by (induction xs) auto

lemma split_penalty_score:
  "split_on CHR ''-'' (str_nat a @ CHR ''-'' # str_nat b) = [str_nat a, str_nat b]"
  using split_on_append [OF str_nat_no_dash, of a "str_nat b"] split_on_no_sep [OF str_nat_no_dash, of b]
  by simp

lemma penalty_field_0: "penalty_field (str_nat a @ CHR ''-'' # str_nat b) 0 = Inr (int a)"
  unfolding penalty_field_def split_penalty_score by (simp add: index_list_def py_int_str_nat)

lemma penalty_field_1: "penalty_field (str_nat a @ CHR ''-'' # str_nat b) (Suc 0) = Inr (int b)"
  unfolding penalty_field_def split_penalty_score by (simp add: index_list_def py_int_str_nat)

lemma winner_of_penalties:
  "winner_of c1 c2 n n (Some (str_nat a @ ''-'' @ str_nat b)) True = Inr (if b < a then c1 else c2)"
  by (simp add: winner_of_def penalty_field_0 penalty_field_1 str_nat_nonempty)

section \<open>The timeline loop\<close>

lemma choice_pair: "\<exists>a g'. choice [x, y] g = Inr (a, g') \<and> (a = x \<or> a = y)"
proof -
  have "\<lfloor>shd g\<rfloor> mod 2 = 0 \<or> \<lfloor>shd g\<rfloor> mod 2 = 1" by linarith
  then have "nat (\<lfloor>shd g\<rfloor> mod 2) = 0 \<or> nat (\<lfloor>shd g\<rfloor> mod 2) = Suc 0" by auto
  then show ?thesis by (auto simp: choice_def randbelow_def)
qed

lemma timeline_loop_invariant:
  assumes "timeline_loop t1 t2 m v = Inr v'"
    and "P v"
    and step: "\<And>m v v'. P v \<Longrightarrow> timeline_phase t1 t2 m v = Inr v' \<Longrightarrow> P v'"
    and draw: "\<And>v g. P v \<Longrightarrow> P (v\<lparr>v_rng := g\<rparr>)"
  shows "P v'"
  using assms
proof (induction t1 t2 m v rule: timeline_loop.induct)
  case (1 t1 t2 m v)
  let ?c = "m < 90 \<and> (v_goals_scored v (country t1) < v_team1_goals v \<or>
                       v_goals_scored v (country t2) < v_team2_goals v)"
  let ?m = "m + fst (randint 2 10 (v_rng v))"
  let ?v1 = "v\<lparr>v_rng := snd (randint 2 10 (v_rng v))\<rparr>"
  show ?case
  proof (cases ?c)
    case False
    with "1.prems"(1) have "v' = v" by (simp add: timeline_loop.simps [of t1 t2 m v])
    with "1.prems"(2) show ?thesis by simp
  next
    case True
    note c = this
    show ?thesis
    proof (cases "?m > 90")
      case True
      with c "1.prems"(1) have "v' = ?v1"
        by (simp add: timeline_loop.simps [of t1 t2 m v] Let_def)
      with "1.prems"(2,4) show ?thesis by simp
    next
      case False
      with c "1.prems"(1) obtain v2 where
        p: "timeline_phase t1 t2 ?m ?v1 = Inr v2" and l: "timeline_loop t1 t2 ?m v2 = Inr v'"
        by (auto simp add: timeline_loop.simps [of t1 t2 m v] Let_def split: sum.splits)
      have "P ?v1" using "1.prems"(2,4) by simp
      then have "P v2" using p "1.prems"(3) by blast
      with "1.IH" [OF c refl refl False p l] "1.prems"(3,4) show ?thesis by blast
    qed
  qed
qed

lemma timeline_phase_cases:
  assumes "timeline_phase t1 t2 m v = Inr v'"
  obtains (goal) att scorer g where "att = t1 \<or> att = t2"
      "v_goals_scored v (country att) < (if att = t1 then v_team1_goals v else v_team2_goals v)"
      "v' = v\<lparr>v_goals_scored := (v_goals_scored v)
                 (country att := v_goals_scored v (country att) + 1),
               v_match_events := v_match_events v @
                 [\<lparr>ev_minute = m, ev_type = ''goal'', ev_team = country att, ev_player = scorer\<rparr>],
               v_goal_scorers := v_goal_scorers v @
                 [\<lparr>gs_minute = m, gs_player = scorer, gs_team = country att\<rparr>],
               v_rng := g\<rparr>"
  | (other) evs g where "v' = v\<lparr>v_match_events := v_match_events v @ evs, v_rng := g\<rparr>"
      "\<forall>e \<in> set evs. ev_minute e = m"
proof -
  obtain att g1 where ch: "choice [t1, t2] (v_rng v) = Inr (att, g1)" and att: "att = t1 \<or> att = t2"
    using choice_pair [of t1 t2 "v_rng v"] by blast
  obtain roll g2 where r: "random_py g1 = (roll, g2)"
    by (cases "random_py g1")
  let ?goal = "roll < 0.1 \<and> v_goals_scored v (country att)
                  < (if att = t1 then v_team1_goals v else v_team2_goals v)"
  let ?def = "if att = t1 then t2 else t1"
  consider (a) "?goal" | (b) "\<not> ?goal" "roll < 0.2"
    | (c) "\<not> ?goal" "\<not> roll < 0.2" "roll < 0.3"
    | (d) "\<not> ?goal" "\<not> roll < 0.2" "\<not> roll < 0.3" "roll < 0.4"
    | (e) "\<not> ?goal" "\<not> roll < 0.2" "\<not> roll < 0.3" "\<not> roll < 0.4"
    by blast
  then show ?thesis
  proof cases
    case a
    note eq = assms [unfolded timeline_phase_def ch r Let_def sum.case prod.case if_P [OF a]]
    show ?thesis
    proof (cases "choice (mid_att (squad att)) g2")
      case (Inl x)
      with eq show ?thesis by simp
    next
      case (Inr q)
      obtain p g3 where q: "q = (p, g3)" by (cases q)
      from eq Inr q have
        "v' = v\<lparr>v_goals_scored := (v_goals_scored v)
                 (country att := v_goals_scored v (country att) + 1),
               v_match_events := v_match_events v @
                 [\<lparr>ev_minute = m, ev_type = ''goal'', ev_team = country att,
                   ev_player = name p\<rparr>],
               v_goal_scorers := v_goal_scorers v @
                 [\<lparr>gs_minute = m, gs_player = name p, gs_team = country att\<rparr>],
               v_rng := g3\<rparr>" by simp
      with a att show ?thesis by (intro goal [where att = att and scorer = "name p" and g = g3]) auto
    qed
  next
    case b
    note eq = assms [unfolded timeline_phase_def ch r Let_def sum.case prod.case if_not_P [OF b(1)] if_P [OF b(2)]]
    show ?thesis
    proof (cases "choice (keepers (squad ?def)) g2")
      case (Inl x)
      with eq show ?thesis by simp
    next
      case (Inr q)
      obtain p g3 where q: "q = (p, g3)" by (cases q)
      from eq Inr q have
        "v' = v\<lparr>v_match_events := v_match_events v @
                 [\<lparr>ev_minute = m, ev_type = ''save'', ev_team = country ?def,
                   ev_player = name p\<rparr>],
               v_rng := g3\<rparr>" by simp
      then show ?thesis
        by (intro other [where evs = "[\<lparr>ev_minute = m, ev_type = ''save'', ev_team = country ?def,
                   ev_player = name p\<rparr>]" and g = g3]) auto
    qed
  next
    case c
    note eq = assms [unfolded timeline_phase_def ch r Let_def sum.case prod.case if_not_P [OF c(1)] if_not_P [OF c(2)] if_P [OF c(3)]]
    show ?thesis
    proof (cases "choice (mid_att (squad att)) g2")
      case (Inl x)
      with eq show ?thesis by simp
    next
      case (Inr q)
      obtain p g3 where q: "q = (p, g3)" by (cases q)
      from eq Inr q have
        "v' = v\<lparr>v_match_events := v_match_events v @
                 [\<lparr>ev_minute = m, ev_type = ''chance'', ev_team = country att,
                   ev_player = name p\<rparr>],
               v_rng := g3\<rparr>" by simp
      then show ?thesis
        by (intro other [where evs = "[\<lparr>ev_minute = m, ev_type = ''chance'', ev_team = country att,
                   ev_player = name p\<rparr>]" and g = g3]) auto
    qed
  next
    case d
    note eq = assms [unfolded timeline_phase_def ch r Let_def sum.case prod.case if_not_P [OF d(1)] if_not_P [OF d(2)] if_not_P [OF d(3)] if_P [OF d(4)]]
    show ?thesis
    proof (cases "choice (squad att) g2")
      case (Inl x)
      with eq show ?thesis by simp
    next
      case (Inr q)
      obtain p g3 where q: "q = (p, g3)" by (cases q)
      from eq Inr q have
        "v' = v\<lparr>v_match_events := v_match_events v @
                 [\<lparr>ev_minute = m, ev_type = ''foul'', ev_team = country att,
                   ev_player = name p\<rparr>],
               v_rng := g3\<rparr>" by simp
      then show ?thesis
        by (intro other [where evs = "[\<lparr>ev_minute = m, ev_type = ''foul'', ev_team = country att,
                   ev_player = name p\<rparr>]" and g = g3]) auto
    qed
  next
    case e
    from assms have "v' = v\<lparr>v_rng := g2\<rparr>"
      unfolding timeline_phase_def ch r Let_def sum.case prod.case if_not_P [OF e(1)]
        if_not_P [OF e(2)] if_not_P [OF e(3)] if_not_P [OF e(4)]
      by auto
    then show ?thesis by (intro other [where evs = "[]" and g = g2]) auto
  qed
qed

lemma timeline_phase_kept:
  assumes "timeline_phase t1 t2 m v = Inr v'"
  shows "kept v' = kept v"
  using assms by (cases rule: timeline_phase_cases) (auto simp: kept_def)

lemma timeline_loop_kept:
  assumes "timeline_loop t1 t2 m v = Inr v'"
  shows "kept v' = kept v"
proof -
  have "kept v' = kept v"
    using assms
  proof (rule timeline_loop_invariant [where P = "\<lambda>u. kept u = kept v"])
    show "kept v = kept v" by simp
  qed (auto simp: kept_def dest: timeline_phase_kept)
  then show ?thesis .
qed

section \<open>Goal counts\<close>

lemma poisson_approx_nonneg: "0 \<le> fst (poisson_approx lam g)"
  by (simp add: poisson_approx_def Let_def split: prod.splits)

lemma goal_counts_bounds:
  "(case regulation_goals r1 r2 g of
      ((b1, b2, n1, n2), g') \<Rightarrow> 0 \<le> n1 \<and> n1 \<le> 7 \<and> 0 \<le> n2 \<and> n2 \<le> 7)"
proof -
  have n: "\<And>lam h n h'. poisson_approx lam h = (n, h') \<Longrightarrow> 0 \<le> n"
    using poisson_approx_nonneg by (metis fst_conv)
  show ?thesis
    unfolding regulation_goals_def Let_def
    by (auto split: prod.splits dest: n)
qed

lemma extra_time_counts_bounds:
  "(case extra_time_goals b1 b2 g of
      ((e1, e2), g') \<Rightarrow> 0 \<le> e1 \<and> e1 \<le> 3 \<and> 0 \<le> e2 \<and> e2 \<le> 3)"
proof -
  have n: "\<And>lam h n h'. poisson_approx lam h = (n, h') \<Longrightarrow> 0 \<le> n"
    using poisson_approx_nonneg by (metis fst_conv)
  show ?thesis
    unfolding extra_time_goals_def Let_def
    by (auto split: prod.splits dest: n)
qed

text \<open>
  Claim C7. Whatever the two ratings and the draws, each regulation goal count lies in
  \<open>[0, 7]\<close>; whatever the base expectations and the draws, each extra-time goal count lies
  in \<open>[0, 3]\<close>.
\<close>

theorem goal_counts_in_range:
  "(case regulation_goals team1_rating team2_rating g of
      ((b1, b2, n1, n2), g') \<Rightarrow> 0 \<le> n1 \<and> n1 \<le> 7 \<and> 0 \<le> n2 \<and> n2 \<le> 7) \<and>
   (case extra_time_goals base1 base2 g of
      ((e1, e2), g') \<Rightarrow> 0 \<le> e1 \<and> e1 \<le> 3 \<and> 0 \<le> e2 \<and> e2 \<le> 3)"
proof -
  have n: "\<And>lam h n h'. poisson_approx lam h = (n, h') \<Longrightarrow> 0 \<le> n"
    using poisson_approx_nonneg by (metis fst_conv)
  show ?thesis
    unfolding regulation_goals_def extra_time_goals_def Let_def
    by (auto split: prod.splits dest: n)
qed

section \<open>The blocks of the simulation\<close>

lemma basic_scorers_result:
  "basic_scorers n t v = Inr v' \<Longrightarrow>
     \<exists>gs g. v' = v\<lparr>v_goal_scorers := v_goal_scorers v @ gs, v_rng := g\<rparr> \<and>
            length gs = n \<and> (\<forall>s \<in> set gs. gs_team s = country t)"
proof (induction n arbitrary: v)
  case 0
  then have "v' = v\<lparr>v_goal_scorers := v_goal_scorers v @ [], v_rng := v_rng v\<rparr>" by simp
  then show ?case by (intro exI [of _ "[]"] exI [of _ "v_rng v"]) simp
next
  case (Suc n)
  show ?case
  proof (cases "choice (mid_att (squad t)) (v_rng v)")
    case (Inl e)
    with Suc.prems show ?thesis by simp
  next
    case (Inr q)
    obtain p g1 where q: "q = (p, g1)" by (cases q)
    obtain minute g2 where r: "randint 5 85 g1 = (minute, g2)" by (cases "randint 5 85 g1")
    let ?s = "\<lparr>gs_minute = minute, gs_player = name p, gs_team = country t\<rparr>"
    let ?v1 = "v\<lparr>v_goal_scorers := v_goal_scorers v @ [?s], v_rng := g2\<rparr>"
    from Suc.prems Inr q r have "basic_scorers n t ?v1 = Inr v'" by simp
    from Suc.IH [OF this] obtain gs g where
      v': "v' = ?v1\<lparr>v_goal_scorers := v_goal_scorers ?v1 @ gs, v_rng := g\<rparr>"
      and n: "length gs = n" and t: "\<forall>s \<in> set gs. gs_team s = country t" by blast
    from v' have "v' = v\<lparr>v_goal_scorers := v_goal_scorers v @ (?s # gs), v_rng := g\<rparr>" by simp
    with n t show ?thesis by (intro exI [of _ "?s # gs"] exI [of _ g]) simp
  qed
qed

lemma extra_time_events_result:
  "extra_time_events n t v = Inr v' \<Longrightarrow>
     \<exists>evs gs g. v' = v\<lparr>v_match_events := v_match_events v @ evs,
                         v_goal_scorers := v_goal_scorers v @ gs, v_rng := g\<rparr> \<and>
            length gs = n \<and> (\<forall>s \<in> set gs. gs_team s = country t) \<and>
            length evs = n \<and> (\<forall>e \<in> set evs. 91 \<le> ev_minute e \<and> ev_minute e \<le> 120)"
proof (induction n arbitrary: v)
  case 0
  then have "v' = v\<lparr>v_match_events := v_match_events v @ [],
                      v_goal_scorers := v_goal_scorers v @ [], v_rng := v_rng v\<rparr>" by simp
  then show ?case by (intro exI [of _ "[]"] exI [of _ "v_rng v"]) simp
next
  case (Suc n)
  obtain minute g1 where r: "randint 91 120 (v_rng v) = (minute, g1)"
    by (cases "randint 91 120 (v_rng v)")
  have "0 \<le> \<lfloor>shd (v_rng v)\<rfloor> mod 30 \<and> \<lfloor>shd (v_rng v)\<rfloor> mod 30 < 30" by simp
  with r have m: "91 \<le> minute \<and> minute \<le> 120"
    by (auto simp: randint_def randbelow_def)
  show ?case
  proof (cases "choice (mid_att (squad t)) g1")
    case (Inl e)
    with Suc.prems r show ?thesis by simp
  next
    case (Inr q)
    obtain p g2 where q: "q = (p, g2)" by (cases q)
    let ?e = "\<lparr>ev_minute = minute, ev_type = ''goal'', ev_team = country t, ev_player = name p\<rparr>"
    let ?s = "\<lparr>gs_minute = minute, gs_player = name p, gs_team = country t\<rparr>"
    let ?v1 = "v\<lparr>v_match_events := v_match_events v @ [?e],
                  v_goal_scorers := v_goal_scorers v @ [?s], v_rng := g2\<rparr>"
    from Suc.prems Inr q r have "extra_time_events n t ?v1 = Inr v'" by simp
    from Suc.IH [OF this] obtain evs gs g where
      v': "v' = ?v1\<lparr>v_match_events := v_match_events ?v1 @ evs,
                      v_goal_scorers := v_goal_scorers ?v1 @ gs, v_rng := g\<rparr>"
      and n: "length gs = n" "length evs = n"
      and t: "\<forall>s \<in> set gs. gs_team s = country t"
             "\<forall>e \<in> set evs. 91 \<le> ev_minute e \<and> ev_minute e \<le> 120" by blast
    from v' have "v' = v\<lparr>v_match_events := v_match_events v @ (?e # evs),
                          v_goal_scorers := v_goal_scorers v @ (?s # gs), v_rng := g\<rparr>" by simp
    with n t m show ?thesis
      by (intro exI [of _ "?e # evs"] exI [of _ "?s # gs"] exI [of _ g]) simp
  qed
qed

lemma basic_scorers_kept: "basic_scorers n t v = Inr v' \<Longrightarrow> kept v' = kept v"
  by (drule basic_scorers_result) (auto simp: kept_def)

lemma extra_time_events_kept: "extra_time_events n t v = Inr v' \<Longrightarrow> kept v' = kept v"
  by (drule extra_time_events_result) (auto simp: kept_def)

lemma regulation_kept:
  assumes "regulation t1 t2 detailed g = Inr v"
  shows "v_decided_by v = None \<and> v_penalty_score v = None \<and> \<not> v_used_extra_time v \<and>
         0 \<le> v_team1_goals v \<and> v_team1_goals v \<le> 7 \<and>
         0 \<le> v_team2_goals v \<and> v_team2_goals v \<le> 7"
proof -
  obtain b1 b2 n1 n2 g1 where rg: "regulation_goals (rating t1) (rating t2) g = ((b1, b2, n1, n2), g1)"
    by (metis prod.exhaust)
  have rng: "0 \<le> n1 \<and> n1 \<le> 7 \<and> 0 \<le> n2 \<and> n2 \<le> 7"
    using goal_counts_bounds [of "rating t1" "rating t2" g] rg by simp
  let ?v0 = "\<lparr>v_base_goals_team1 = b1, v_base_goals_team2 = b2,
                v_team1_goals = n1, v_team2_goals = n2,
                v_goals_scored = (\<lambda>c. 0), v_match_events = [], v_goal_scorers = [],
                v_decided_by = None, v_penalty_score = None, v_used_extra_time = False,
                v_rng = g1\<rparr>"
  have "kept v = kept ?v0"
  proof (cases detailed)
    case True
    with assms rg obtain v1 where l: "timeline_loop t1 t2 0 ?v0 = Inr v1"
      and v: "v = v1\<lparr>v_match_events := sort_key ev_minute (v_match_events v1)\<rparr>"
      by (auto simp: regulation_def split: sum.splits)
    from timeline_loop_kept [OF l] v show ?thesis by (simp add: kept_def)
  next
    case False
    with assms rg obtain v1 where a: "basic_scorers (nat n1) t1 ?v0 = Inr v1"
      and b: "basic_scorers (nat n2) t2 v1 = Inr v"
      by (auto simp: regulation_def split: sum.splits)
    from basic_scorers_kept [OF a] basic_scorers_kept [OF b] show ?thesis by simp
  qed
  with rng show ?thesis by (simp add: kept_def)
qed

lemma sudden_death_differ_aux:
  assumes "sudden_death p1 p2 t1 t2 g = Some y"
  shows "fst y \<noteq> fst (snd y)"
proof (rule sudden_death.raw_induct
    [where P = "\<lambda>p1 p2 t1 t2 g y. fst y \<noteq> fst (snd y)", OF _ assms])
  fix sd :: "real \<Rightarrow> real \<Rightarrow> nat \<Rightarrow> nat \<Rightarrow> rng \<Rightarrow> (nat \<times> nat \<times> rng) option"
  fix p1 p2 t1 t2 g y
  assume ih: "\<And>p1 p2 t1 t2 g y. sd p1 p2 t1 t2 g = Some y \<Longrightarrow> fst y \<noteq> fst (snd y)"
    and eq: "(if t1 = t2
       then sd p1 p2 (fst (penalty_kick p1 t1 g))
              (fst (penalty_kick p2 t2 (snd (penalty_kick p1 t1 g))))
              (snd (penalty_kick p2 t2 (snd (penalty_kick p1 t1 g))))
       else Some (t1, t2, g)) = Some y"
  show "fst y \<noteq> fst (snd y)"
  proof (cases "t1 = t2")
    case True
    with eq ih show ?thesis by simp
  next
    case False
    with eq show ?thesis by auto
  qed
qed

lemma sudden_death_differ: "sudden_death p1 p2 t1 t2 g = Some (a, b, g') \<Longrightarrow> a \<noteq> b"
  by (drule sudden_death_differ_aux) simp

lemma penalty_shootout_result:
  assumes "penalty_shootout t1 t2 detailed v = Some v'"
  shows "\<exists>a b. a \<noteq> b \<and> v_penalty_score v' = Some (str_nat a @ ''-'' @ str_nat b) \<and>
               v_decided_by v' = Some ''penalties'' \<and>
               v_team1_goals v' = v_team1_goals v \<and> v_team2_goals v' = v_team2_goals v \<and>
               v_used_extra_time v' = v_used_extra_time v \<and>
               v_goal_scorers v' = v_goal_scorers v"
proof -
  obtain p1 p2 where p: "penalty_probabilities (rating t1) (rating t2) = (p1, p2)"
    by (cases "penalty_probabilities (rating t1) (rating t2)")
  obtain k1 k2 shots g1 where i: "initial_kicks 5 p1 p2 (0, 0, 0) (v_rng v) = ((k1, k2, shots), g1)"
    by (metis prod.exhaust)
  from assms p i obtain a b g2 where sd: "sudden_death p1 p2 k1 k2 g1 = Some (a, b, g2)"
    by (auto simp: penalty_shootout_def split: option.splits)
  from assms p i sd have
    "v_penalty_score v' = Some (str_nat a @ ''-'' @ str_nat b) \<and>
     v_decided_by v' = Some ''penalties'' \<and>
     v_team1_goals v' = v_team1_goals v \<and> v_team2_goals v' = v_team2_goals v \<and>
     v_used_extra_time v' = v_used_extra_time v \<and> v_goal_scorers v' = v_goal_scorers v"
    by (auto simp: penalty_shootout_def Let_def)
  with sudden_death_differ [OF sd] show ?thesis by blast
qed

lemma knockout_extra_time_unfold:
  "knockout_extra_time team1_data team2_data detailed v =
     (let ((extra1, extra2), g1) =
            extra_time_goals (v_base_goals_team1 v) (v_base_goals_team2 v) (v_rng v);
          v1 = v\<lparr>v_used_extra_time := True, v_rng := g1\<rparr>
      in case (if detailed
               then (case extra_time_events (nat extra1) team1_data v1 of
                       Inl e \<Rightarrow> Inl e
                     | Inr v2 \<Rightarrow> extra_time_events (nat extra2) team2_data v2)
               else Inr v1) of
           Inl e \<Rightarrow> Some (Inl e)
         | Inr v3 \<Rightarrow>
             let v4 = v3\<lparr>v_team1_goals := v_team1_goals v3 + extra1,
                         v_team2_goals := v_team2_goals v3 + extra2\<rparr>
             in if v_team1_goals v4 \<noteq> v_team2_goals v4
                then Some (Inr (v4\<lparr>v_decided_by := Some ''extra_time''\<rparr>))
                else map_option Inr (penalty_shootout team1_data team2_data detailed v4))"
  unfolding knockout_extra_time_def extra_time_period_def Let_def
  by (simp split: prod.splits sum.splits)

lemma knockout_extra_time_result:
  assumes "knockout_extra_time t1 t2 detailed v = Some (Inr v')"
  shows "v_used_extra_time v' \<and>
         (v_team1_goals v' \<noteq> v_team2_goals v' \<and> v_decided_by v' = Some ''extra_time'' \<and>
            v_penalty_score v' = v_penalty_score v \<or>
          v_team1_goals v' = v_team2_goals v' \<and> v_decided_by v' = Some ''penalties'' \<and>
            (\<exists>a b. a \<noteq> b \<and> v_penalty_score v' = Some (str_nat a @ ''-'' @ str_nat b)))"
proof -
  obtain extra1 extra2 g1 where e:
    "extra_time_goals (v_base_goals_team1 v) (v_base_goals_team2 v) (v_rng v) = ((extra1, extra2), g1)"
    by (metis prod.exhaust)
  let ?v1 = "v\<lparr>v_used_extra_time := True, v_rng := g1\<rparr>"
  let ?ev = "if detailed
             then (case extra_time_events (nat extra1) t1 ?v1 of
                     Inl e \<Rightarrow> Inl e
                   | Inr v2 \<Rightarrow> extra_time_events (nat extra2) t2 v2)
             else Inr ?v1"
  note eq = assms [unfolded knockout_extra_time_unfold e prod.case Let_def]
  show ?thesis
  proof (cases ?ev)
    case (Inl x)
    with eq show ?thesis by simp
  next
    case (Inr v3)
    have k: "kept v3 = kept ?v1"
    proof (cases detailed)
      case True
      with Inr obtain v2 where a: "extra_time_events (nat extra1) t1 ?v1 = Inr v2"
        and b: "extra_time_events (nat extra2) t2 v2 = Inr v3"
        by (auto split: sum.splits)
      from extra_time_events_kept [OF a] extra_time_events_kept [OF b] show ?thesis by simp
    next
      case False
      with Inr show ?thesis by simp
    qed
    let ?v4 = "v3\<lparr>v_team1_goals := v_team1_goals v3 + extra1,
                   v_team2_goals := v_team2_goals v3 + extra2\<rparr>"
    show ?thesis
    proof (cases "v_team1_goals v3 + extra1 \<noteq> v_team2_goals v3 + extra2")
      case True
      with eq Inr have "v' = ?v4\<lparr>v_decided_by := Some ''extra_time''\<rparr>"
        by simp
      with True k show ?thesis by (simp add: kept_def)
    next
      case False
      with eq Inr have "penalty_shootout t1 t2 detailed ?v4 = Some v'"
        by auto
      from penalty_shootout_result [OF this] False k show ?thesis
        by (auto simp: kept_def)
    qed
  qed
qed

lemma simulate_match_cases:
  assumes "simulate_match t1 t2 detailed knockout g = Some (Inr r)"
  obtains (direct) v where "regulation t1 t2 detailed g = Inr v"
      "\<not> (knockout \<and> v_team1_goals v = v_team2_goals v)"
      "match_result_of t1 t2 knockout v = Inr r"
  | (extra) v v' where "regulation t1 t2 detailed g = Inr v"
      "knockout" "v_team1_goals v = v_team2_goals v"
      "knockout_extra_time t1 t2 detailed v = Some (Inr v')"
      "match_result_of t1 t2 knockout v' = Inr r"
proof (cases "regulation t1 t2 detailed g")
  case (Inl e)
  with assms show ?thesis by (simp add: simulate_match_def)
next
  case (Inr v)
  show ?thesis
  proof (cases "knockout \<and> v_team1_goals v = v_team2_goals v")
    case False
    with assms Inr have "match_result_of t1 t2 knockout v = Inr r"
      by (simp add: simulate_match_def)
    with Inr False show ?thesis by (rule direct)
  next
    case True
    with assms Inr obtain v' where "knockout_extra_time t1 t2 detailed v = Some (Inr v')"
      "match_result_of t1 t2 knockout v' = Inr r"
      by (auto simp: simulate_match_def split: option.splits sum.splits)
    with Inr True show ?thesis by (intro extra [of v v']) auto
  qed
qed

section \<open>Machine arithmetic\<close>

lemma binade_eqI:
  assumes "2 powi k \<le> \<bar>x\<bar>" and "\<bar>x\<bar> < 2 powi (k + 1)"
  shows "binade x = k"
proof -
  have "(0 :: real) < 2 powi k" by simp
  with assms(1) have pos: "0 < \<bar>x\<bar>" by linarith
  have "(2 :: real) powr real_of_int k = 2 powi k"
    by (simp add: powr_real_of_int')
  moreover have "(2 :: real) powr (real_of_int k + 1) = 2 powi (k + 1)"
    using powr_real_of_int' [of "2 :: real" "k + 1"] by simp
  ultimately have "(2 :: real) powr real_of_int k = 2 powi k"
    "(2 :: real) powr (real_of_int k + 1) = 2 powi (k + 1)" by simp_all
  with assms have "2 powr real_of_int k \<le> \<bar>x\<bar> \<and> \<bar>x\<bar> < 2 powr (real_of_int k + 1)"
    by simp
  with floor_log_eq_powr_iff [of "\<bar>x\<bar>" 2 k] pos show ?thesis
    by (simp add: binade_def)
qed

lemma double_0: "double 0 = 0"
  by (simp add: double_def)

lemma binade_half_to_one: "1 / 2 \<le> x \<Longrightarrow> x < 1 \<Longrightarrow> binade x = - 1"
  by (rule binade_eqI) (simp_all add: power_int_def)

lemma double_values:
  "double (3 / 4) = 3 / 4"
  "double (3 / 5) = 5404319552844595 / 2 ^ 53"
  "double (9 / 10) = 8106479329266893 / 2 ^ 53"
proof -
  have u: "(2 :: real) powi (- 53) = 1 / 9007199254740992"
    by (simp add: power_int_def power_divide)
  show "double (3 / 4) = 3 / 4"
    by (simp add: double_def binade_half_to_one u py_round_def)
  show "double (3 / 5) = 5404319552844595 / 2 ^ 53"
    by (simp add: double_def binade_half_to_one u py_round_def)
  show "double (9 / 10) = 8106479329266893 / 2 ^ 53"
    by (simp add: double_def binade_half_to_one u py_round_def)
qed

lemma penalty_probabilities_bounds:
  assumes "penalty_probabilities r1 r2 = (p1, p2)"
  shows "double 0.6 \<le> p1 \<and> p1 \<le> double 0.9 \<and> double 0.6 \<le> p2 \<and> p2 \<le> double 0.9 \<and>
         0 < p1 \<and> p1 < 1 \<and> 0 < p2 \<and> p2 < 1"
proof -
  have c: "lo \<le> hi \<Longrightarrow> lo \<le> max lo (min hi x) \<and> max lo (min hi x) \<le> hi" for lo hi x :: real
    by (simp add: max_def min_def)
  have d: "double 0.6 \<le> double 0.9" "0 < double 0.6" "double 0.9 < 1"
    by (simp_all add: double_values)
  let ?diff = "double (double (r1 - r2) / 100)"
  from assms have e1: "p1 = max (double 0.6) (min (double 0.9) (double (0.75 + ?diff)))"
    and e2: "p2 = max (double 0.6) (min (double 0.9) (double (0.75 - ?diff)))"
    by (simp_all add: penalty_probabilities_def Let_def)
  have a1: "double 0.6 \<le> p1 \<and> p1 \<le> double 0.9"
    unfolding e1 by (rule c [OF d(1)])
  have a2: "double 0.6 \<le> p2 \<and> p2 \<le> double 0.9"
    unfolding e2 by (rule c [OF d(1)])
  from a1 a2 d(2,3) show ?thesis by linarith
qed

lemma penalty_probabilities_level: "penalty_probabilities 70 70 = (3 / 4, 3 / 4)"
  by (simp add: penalty_probabilities_def double_0 double_values)

section \<open>Concrete runs\<close>

lemma penalty_kick_SCons: "penalty_kick p t (x ## g) = (if frac x < p then t + 1 else t, g)"
  by (simp add: penalty_kick_def random_py_def)

lemma sudden_death_done: "t1 \<noteq> t2 \<Longrightarrow> sudden_death p1 p2 t1 t2 g = Some (t1, t2, g)"
  by (subst sudden_death.simps) simp

lemma sudden_death_SCons:
  "sudden_death p1 p2 t t (x ## y ## g) =
     sudden_death p1 p2 (if frac x < p1 then t + 1 else t) (if frac y < p2 then t + 1 else t) g"
  by (subst sudden_death.simps) (simp add: penalty_kick_SCons)

lemma str_nat_digit: "n < 10 \<Longrightarrow> str_nat n = [digit_char n]"
  by (subst str_nat.simps) simp

lemma squad_player_fields:
  "name (squad_player n who pos) = who" "natural_position (squad_player n who pos) = pos"
  by (simp_all add: squad_player_def)

lemma mid_att_ghana: "mid_att (squad ghana) = [squad_player 1 ''Kofi Mensah'' ''AT'']"
  by (simp add: mid_att_def ghana_def squad_player_fields)

lemma mid_att_mali: "mid_att (squad mali) = [squad_player 1 ''Sekou Traore'' ''MD'']"
  by (simp add: mid_att_def mali_def squad_player_fields)

lemma run_regulation_2_1:
  "regulation ghana mali False (0.5 ## 0.5 ## 2 ## 1 ## 0 ## 10 ## 0 ## 40 ## 0 ## 62 ## g) =
     Inr \<lparr>v_base_goals_team1 = 1.5, v_base_goals_team2 = 1.5,
          v_team1_goals = 2, v_team2_goals = 1,
          v_goals_scored = (\<lambda>c. 0), v_match_events = [],
          v_goal_scorers =
            [\<lparr>gs_minute = 15, gs_player = ''Kofi Mensah'', gs_team = ''Ghana''\<rparr>,
             \<lparr>gs_minute = 45, gs_player = ''Kofi Mensah'', gs_team = ''Ghana''\<rparr>,
             \<lparr>gs_minute = 67, gs_player = ''Sekou Traore'', gs_team = ''Mali''\<rparr>],
          v_decided_by = None, v_penalty_score = None, v_used_extra_time = False,
          v_rng = g\<rparr>"
proof -
  have r: "rating ghana = 70" "rating mali = 70" "country ghana = ''Ghana''" "country mali = ''Mali''"
    by (simp_all add: ghana_def mali_def)
  have g: "regulation_goals 70 70 (0.5 ## 0.5 ## 2 ## 1 ## 0 ## 10 ## 0 ## 40 ## 0 ## 62 ## g)
            = ((1.5, 1.5, 2, 1), 0 ## 10 ## 0 ## 40 ## 0 ## 62 ## g)"
    by (simp add: regulation_goals_SCons py_round_def)
  have n: "nat 2 = Suc (Suc 0)" "nat 1 = Suc 0" by simp_all
  show ?thesis
    unfolding regulation_def r g prod.case Let_def n
    by (simp add: choice_SCons randint_SCons mid_att_ghana mid_att_mali squad_player_fields r)
qed

lemma countries: "country ghana = ''Ghana''" "country mali = ''Mali''"
  by (simp_all add: ghana_def mali_def)

lemma str_int_digit: "0 \<le> i \<Longrightarrow> i < 10 \<Longrightarrow> str_int i = [digit_char (nat i)]"
  by (simp add: str_int_def str_nat_digit)

lemma run_2_1: "simulate_match ghana mali False False tape_2_1 = Some (Inr result_2_1)"
  unfolding simulate_match_def tape_2_1_def run_regulation_2_1
  by (simp add: match_result_of_def winner_of_def result_2_1_def countries str_int_digit
      digit_char_def)

section \<open>Winner and decision mode\<close>

text \<open>
  Claim C8. A non-knockout simulation names the higher scorer, and \<open>Draw\<close> when the goal
  counts are equal; since the winner is a string, "Draw exactly when level" needs that no
  team is itself called \<open>Draw\<close>.
\<close>

theorem non_knockout_winner:
  assumes "simulate_match team1_data team2_data detailed False g = Some (Inr r)"
  shows "winner r = (if team1_goals r > team2_goals r then country team1_data
                     else if team2_goals r > team1_goals r then country team2_data
                     else ''Draw'') \<and>
         (country team1_data \<noteq> ''Draw'' \<and> country team2_data \<noteq> ''Draw'' \<longrightarrow>
            (winner r = ''Draw'') = (team1_goals r = team2_goals r))"
  using assms
proof (cases rule: simulate_match_cases)
  case (direct v)
  from direct(3) show ?thesis
    by (auto simp: match_result_of_def winner_of_def split: sum.splits if_splits)
next
  case (extra v v')
  then show ?thesis by simp
qed

theorem non_knockout_winner_witness:
  "simulate_match ghana mali False False tape_2_1 = Some (Inr result_2_1) \<and>
   winner result_2_1 = ''Ghana'' \<and> team1_goals result_2_1 > team2_goals result_2_1 \<and>
   (winner result_2_1 = ''Draw'') = (team1_goals result_2_1 = team2_goals result_2_1)"
  using non_knockout_winner [OF run_2_1] run_2_1
  by (simp add: result_2_1_def countries)

lemma run_regulation_0_0:
  "regulation ghana mali False (0.5 ## 0.5 ## 0 ## 0 ## g) =
     Inr \<lparr>v_base_goals_team1 = 1.5, v_base_goals_team2 = 1.5,
          v_team1_goals = 0, v_team2_goals = 0,
          v_goals_scored = (\<lambda>c. 0), v_match_events = [], v_goal_scorers = [],
          v_decided_by = None, v_penalty_score = None, v_used_extra_time = False,
          v_rng = g\<rparr>"
proof -
  have r: "rating ghana = 70" "rating mali = 70"
    by (simp_all add: ghana_def mali_def)
  have g: "regulation_goals 70 70 (0.5 ## 0.5 ## 0 ## 0 ## g) = ((1.5, 1.5, 0, 0), g)"
    by (simp add: regulation_goals_SCons py_round_def)
  show ?thesis
    unfolding regulation_def r g prod.case Let_def
    by simp
qed

lemma run_et: "simulate_match ghana mali False True tape_et = Some (Inr result_et)"
proof -
  have e: "extra_time_goals b1 b2 (1 ## 0 ## g) = ((1, 0), g)" for b1 b2 g
    by (simp add: extra_time_goals_SCons py_round_def)
  show ?thesis
    unfolding simulate_match_def tape_et_def run_regulation_0_0
    by (simp add: knockout_extra_time_unfold e match_result_of_def winner_of_def result_et_def
        countries str_int_digit digit_char_def)
qed

lemma run_initial_kicks:
  "initial_kicks 5 (3 / 4) (3 / 4) (0, 0, 0)
     (1 / 10 ## 1 / 10 ## 1 / 10 ## 1 / 10 ## 1 / 10 ## 1 / 10 ## 1 / 10 ## 1 / 10 ##
      1 / 10 ## 1 / 10 ## g) = ((5, 5, 5), g)"
  by (simp add: eval_nat_numeral penalty_kick_SCons)

lemma run_sudden_death:
  "sudden_death (3 / 4) (3 / 4) 5 5 (9 / 10 ## 9 / 10 ## 9 / 10 ## 1 / 10 ## g) = Some (5, 6, g)"
  by (simp add: sudden_death_SCons sudden_death_done)

lemma run_penalties:
  "simulate_match ghana mali False True tape_penalties = Some (Inr result_penalties)"
proof -
  have e: "extra_time_goals b1 b2 (0 ## 0 ## g) = ((0, 0), g)" for b1 b2 g
    by (simp add: extra_time_goals_SCons py_round_def)
  have r: "rating ghana = 70" "rating mali = 70"
    by (simp_all add: ghana_def mali_def)
  have s: "str_nat 5 = ''5''" "str_nat 6 = ''6''"
    by (simp_all add: str_nat_digit digit_char_def)
  have p: "penalty_field ''5-6'' 0 = Inr 5" "penalty_field ''5-6'' (Suc 0) = Inr 6"
    using penalty_field_0 [of 5 6] penalty_field_1 [of 5 6] by (simp_all add: s)
  show ?thesis
    unfolding simulate_match_def tape_penalties_def run_regulation_0_0
    by (simp add: knockout_extra_time_unfold e penalty_shootout_def r penalty_probabilities_level
        run_initial_kicks run_sudden_death s p match_result_of_def winner_of_def
        result_penalties_def countries str_int_digit digit_char_def)
qed

lemma match_result_of_fields:
  assumes "match_result_of t1 t2 knockout v = Inr r"
  shows "team1_goals r = v_team1_goals v" "team2_goals r = v_team2_goals v"
    "decided_by r = v_decided_by v" "penalty_score r = v_penalty_score v"
    "extra_time r = v_used_extra_time v" "goal_scorers r = v_goal_scorers v"
    "events r = v_match_events v"
    "winner_of (country t1) (country t2) (v_team1_goals v) (v_team2_goals v)
       (v_penalty_score v) knockout = Inr (winner r)"
  using assms by (auto simp: match_result_of_def split: sum.splits)

lemma knockout_result_winner:
  assumes "simulate_match team1_data team2_data detailed True g = Some (Inr r)"
  shows "(winner r = country team1_data \<or> winner r = country team2_data) \<and>
         (country team1_data \<noteq> ''Draw'' \<and> country team2_data \<noteq> ''Draw'' \<longrightarrow>
            winner r \<noteq> ''Draw'') \<and>
         (team1_goals r = team2_goals r \<longrightarrow>
            (\<exists>a b. a \<noteq> b \<and> penalty_score r = Some (str_nat a @ ''-'' @ str_nat b) \<and>
                   decided_by r = Some ''penalties'' \<and>
                   winner r = (if b < a then country team1_data else country team2_data))) \<and>
         (decided_by r = Some ''penalties'' \<longrightarrow> team1_goals r = team2_goals r)"
  using assms
proof (cases rule: simulate_match_cases)
  case (direct v)
  note f = match_result_of_fields [OF direct(3)]
  from direct(2) have ne: "v_team1_goals v \<noteq> v_team2_goals v" by simp
  from regulation_kept [OF direct(1)] have "v_decided_by v = None" by simp
  with f ne show ?thesis
    by (auto simp: winner_of_def split: if_splits)
next
  case (extra v v')
  note f = match_result_of_fields [OF extra(5)]
  from knockout_extra_time_result [OF extra(4)]
  consider (et) "v_team1_goals v' \<noteq> v_team2_goals v'" "v_decided_by v' = Some ''extra_time''"
    | (pens) a b where "v_team1_goals v' = v_team2_goals v'" "a \<noteq> b"
        "v_decided_by v' = Some ''penalties''"
        "v_penalty_score v' = Some (str_nat a @ ''-'' @ str_nat b)"
    by blast
  then show ?thesis
  proof cases
    case et
    with f show ?thesis by (auto simp: winner_of_def split: if_splits)
  next
    case pens
    from f(8) pens have w: "winner r = (if b < a then country team1_data else country team2_data)"
      by (simp only: winner_of_penalties) simp
    from pens f w show ?thesis by auto
  qed
qed

text \<open>
  Claim C5, as the code has it. The decision mode of a returned result is \<open>None\<close>,
  \<open>extra_time\<close> or \<open>penalties\<close>. It is \<open>None\<close> exactly when no extra time was played, which
  is always so in a non-knockout match: a match decided in regulation carries no decision
  mode. It is \<open>extra_time\<close> when extra time left the totals different and \<open>penalties\<close> when
  it left them level.
\<close>

theorem decided_by_values:
  assumes "simulate_match team1_data team2_data detailed knockout g = Some (Inr r)"
  shows "(decided_by r = None \<and> \<not> extra_time r \<and> penalty_score r = None \<or>
          decided_by r = Some ''extra_time'' \<and> extra_time r \<and> team1_goals r \<noteq> team2_goals r \<or>
          decided_by r = Some ''penalties'' \<and> extra_time r \<and> team1_goals r = team2_goals r) \<and>
         (\<not> knockout \<longrightarrow> decided_by r = None)"
  using assms
proof (cases rule: simulate_match_cases)
  case (direct v)
  note f = match_result_of_fields [OF direct(3)]
  from regulation_kept [OF direct(1)] f show ?thesis by simp
next
  case (extra v v')
  note f = match_result_of_fields [OF extra(5)]
  from knockout_extra_time_result [OF extra(4)] f extra(2) show ?thesis by auto
qed

theorem decided_by_values_witness:
  "simulate_match ghana mali False True tape_et = Some (Inr result_et) \<and>
   decided_by result_et = Some ''extra_time'' \<and> extra_time result_et \<and>
   team1_goals result_et \<noteq> team2_goals result_et"
  using decided_by_values [OF run_et] run_et
  by (simp add: result_et_def)

text \<open>
  Claim C5 as stated fails: the match below is won 2-1 in regulation, without extra time,
  and its decision mode is none of the three names.
\<close>

theorem decided_by_regulation_counterexample:
  "simulate_match ghana mali False False tape_2_1 = Some (Inr result_2_1) \<and>
   winner result_2_1 = ''Ghana'' \<and> \<not> extra_time result_2_1 \<and>
   decided_by result_2_1 \<noteq> Some ''regulation'' \<and>
   decided_by result_2_1 \<notin> {Some ''regulation'', Some ''extra_time'', Some ''penalties''}"
  using run_2_1 by (simp add: result_2_1_def)

section \<open>The penalty shootout\<close>

lemma penalty_kick_unfold:
  "penalty_kick p t g = (if frac (shd g) < p then t + 1 else t, stl g)"
  by (simp add: penalty_kick_def random_py_def)

lemma decisive_shift: "decisive p1 p2 (stl (stl g)) k = decisive p1 p2 g (Suc k)"
  by (simp add: decisive_def)

lemma sudden_death_step:
  "sudden_death p1 p2 t t g =
     sudden_death p1 p2 (if frac (shd g) < p1 then t + 1 else t)
       (if frac (shd (stl g)) < p2 then t + 1 else t) (stl (stl g))"
  by (subst sudden_death.simps) (simp add: penalty_kick_unfold)

lemma sudden_death_returns:
  "decisive p1 p2 g k \<Longrightarrow> \<exists>y. sudden_death p1 p2 t t g = Some y"
proof (induction k arbitrary: g t)
  case 0
  let ?a = "if frac (shd g) < p1 then t + 1 else t"
  let ?b = "if frac (shd (stl g)) < p2 then t + 1 else t"
  from 0 have ne: "?a \<noteq> ?b" by (auto simp: decisive_def)
  have "sudden_death p1 p2 t t g = Some (?a, ?b, stl (stl g))"
    unfolding sudden_death_step [of p1 p2 t g] by (rule sudden_death_done [OF ne])
  then show ?case by blast
next
  case (Suc k)
  let ?a = "if frac (shd g) < p1 then t + 1 else t"
  let ?b = "if frac (shd (stl g)) < p2 then t + 1 else t"
  show ?case
  proof (cases "?a = ?b")
    case False
    have "sudden_death p1 p2 t t g = Some (?a, ?b, stl (stl g))"
      unfolding sudden_death_step [of p1 p2 t g] by (rule sudden_death_done [OF False])
    then show ?thesis by blast
  next
    case True
    from Suc.prems have "decisive p1 p2 (stl (stl g)) k" by (simp add: decisive_shift)
    from Suc.IH [OF this, of ?a] obtain y where "sudden_death p1 p2 ?a ?a (stl (stl g)) = Some y"
      by blast
    with True have "sudden_death p1 p2 ?a ?b (stl (stl g)) = Some y" by simp
    then have "sudden_death p1 p2 t t g = Some y"
      unfolding sudden_death_step [of p1 p2 t g] .
    then show ?thesis by blast
  qed
qed

lemma sudden_death_runs_on_aux:
  assumes "sudden_death p1 p2 t1 t2 g = Some y"
  shows "\<not> (t1 = t2 \<and> (\<forall>k. \<not> decisive p1 p2 g k))"
proof (rule sudden_death.raw_induct
    [where P = "\<lambda>p1 p2 t1 t2 g y. \<not> (t1 = t2 \<and> (\<forall>k. \<not> decisive p1 p2 g k))", OF _ assms])
  fix sd :: "real \<Rightarrow> real \<Rightarrow> nat \<Rightarrow> nat \<Rightarrow> rng \<Rightarrow> (nat \<times> nat \<times> rng) option"
  fix p1 p2 t1 t2 g y
  assume ih: "\<And>p1 p2 t1 t2 g y. sd p1 p2 t1 t2 g = Some y \<Longrightarrow>
                \<not> (t1 = t2 \<and> (\<forall>k. \<not> decisive p1 p2 g k))"
    and eq: "(if t1 = t2
       then sd p1 p2 (fst (penalty_kick p1 t1 g))
              (fst (penalty_kick p2 t2 (snd (penalty_kick p1 t1 g))))
              (snd (penalty_kick p2 t2 (snd (penalty_kick p1 t1 g))))
       else Some (t1, t2, g)) = Some y"
  show "\<not> (t1 = t2 \<and> (\<forall>k. \<not> decisive p1 p2 g k))"
  proof
    assume a: "t1 = t2 \<and> (\<forall>k. \<not> decisive p1 p2 g k)"
    then have nd: "\<And>k. \<not> decisive p1 p2 g k" by blast
    let ?a = "if frac (shd g) < p1 then t2 + 1 else t2"
    let ?b = "if frac (shd (stl g)) < p2 then t2 + 1 else t2"
    from eq a have "sd p1 p2 ?a ?b (stl (stl g)) = Some y"
      by (simp add: penalty_kick_unfold)
    from ih [OF this] have "?a \<noteq> ?b \<or> (\<exists>k. decisive p1 p2 (stl (stl g)) k)" by blast
    moreover from nd [of 0] have "?a = ?b" by (auto simp: decisive_def)
    moreover from nd have "\<And>k. \<not> decisive p1 p2 (stl (stl g)) k" by (simp add: decisive_shift)
    ultimately show False by blast
  qed
qed

lemma sudden_death_runs_on:
  "(\<And>k. \<not> decisive p1 p2 g k) \<Longrightarrow> sudden_death p1 p2 t t g = None"
  using sudden_death_runs_on_aux [of p1 p2 t t g] by (cases "sudden_death p1 p2 t t g") auto

lemma sudden_death_returns_iff:
  "(\<exists>y. sudden_death p1 p2 t t g = Some y) = (\<exists>k. decisive p1 p2 g k)"
proof
  assume "\<exists>y. sudden_death p1 p2 t t g = Some y"
  then show "\<exists>k. decisive p1 p2 g k"
    by (metis sudden_death_runs_on option.distinct(1))
next
  assume "\<exists>k. decisive p1 p2 g k"
  then show "\<exists>y. sudden_death p1 p2 t t g = Some y"
    using sudden_death_returns by blast
qed

lemma count_upt_Suc:
  "length (filter P [0..<Suc n]) = (if P 0 then 1 else 0) + length (filter (\<lambda>i. P (Suc i)) [0..<n])"
proof -
  have "[0..<Suc n] = 0 # map Suc [0..<n]"
    by (simp add: upt_conv_Cons map_Suc_upt del: upt_Suc)
  then show ?thesis by (simp add: filter_map comp_def del: upt_Suc)
qed

lemma initial_kicks_count:
  "initial_kicks n p1 p2 (t1, t2, shots) g =
     ((t1 + length (filter (\<lambda>i. frac (g !! (2 * i)) < p1) [0..<n]),
       t2 + length (filter (\<lambda>i. frac (g !! (2 * i + 1)) < p2) [0..<n]),
       shots + n), sdrop (2 * n) g)"
proof (induction n arbitrary: t1 t2 shots g)
  case 0
  show ?case by simp
next
  case (Suc n)
  show ?case
    by (simp add: penalty_kick_unfold Suc.IH count_upt_Suc del: upt_Suc)
qed

lemma penalty_shootout_returns_iff:
  assumes "penalty_probabilities (rating t1) (rating t2) = (p1, p2)"
    and "initial_kicks 5 p1 p2 (0, 0, 0) (v_rng v) = ((k1, k2, shots), g1)"
  shows "(\<exists>v'. penalty_shootout t1 t2 detailed v = Some v') =
         (\<exists>y. sudden_death p1 p2 k1 k2 g1 = Some y)"
  using assms by (auto simp: penalty_shootout_def Let_def split: option.splits)

lemma sconst_snth: "sconst x !! n = x"
  by (induction n) auto

lemma sdrop_sconst: "sdrop n (sconst x) = sconst x"
  by (induction n) auto

text \<open>
  Termination is not a property of every tape: on the one below every attempt of both
  sides succeeds, the tallies stay level in every round, and the simulation does not
  return. The tapes on which this happens have probability 0, as shown further down.
\<close>

lemma level_tape_never_returns:
  "simulate_match ghana mali False True tape_level = None"
proof -
  have e: "extra_time_goals b1 b2 (0 ## 0 ## g) = ((0, 0), g)" for b1 b2 g
    by (simp add: extra_time_goals_SCons py_round_def)
  have r: "rating ghana = 70" "rating mali = 70"
    by (simp_all add: ghana_def mali_def)
  have i: "initial_kicks 5 (3 / 4) (3 / 4) (0, 0, 0) (sconst 0) = ((5, 5, 5), sconst 0)"
    unfolding initial_kicks_count by (simp add: sconst_snth sdrop_sconst)
  have "\<not> decisive (3 / 4) (3 / 4) (sconst 0) k" for k
    by (simp add: decisive_def sconst_snth)
  then have s: "sudden_death (3 / 4) (3 / 4) 5 5 (sconst 0) = None"
    by (rule sudden_death_runs_on)
  show ?thesis
    unfolding simulate_match_def tape_level_def run_regulation_0_0
    by (simp add: knockout_extra_time_unfold e penalty_shootout_def r penalty_probabilities_level i s)
qed

subsection \<open>The probability of a long shootout\<close>

lemma sum_list_if_filter:
  "sum_list (map (\<lambda>x. if P x then c * f x else 0) xs) = c * sum_list (map f (filter P xs))"
  for c :: real
  by (induction xs) (simp_all add: algebra_simps)

lemma level_extensions:
  "sum_list (map (sequence_weight p1 p2)
     (filter (list_all level_round) (map (\<lambda>out. out # outs) round_outcomes))) =
   (if list_all level_round outs
    then (p1 * p2 + (1 - p1) * (1 - p2)) * sequence_weight p1 p2 outs else 0)"
  by (simp add: round_outcomes_def level_round_def sequence_weight_def outcome_weight_def
      algebra_simps)

lemma sum_list_concat_lists: "sum_list (concat xss) = sum_list (map sum_list xss)"
  for xss :: "real list list"
  by (induction xss) simp_all

lemma n_lists_Suc_swap:
  "sum_list (map f (filter P (List.n_lists (Suc n) xs))) =
   sum_list (map (\<lambda>ys. sum_list (map f (filter P (map (\<lambda>y. y # ys) xs)))) (List.n_lists n xs))"
  for f :: "'a list \<Rightarrow> real"
  by (simp add: filter_concat map_concat sum_list_concat_lists comp_def)

lemma still_level_probability_power:
  "still_level_probability p1 p2 n = (p1 * p2 + (1 - p1) * (1 - p2)) ^ n"
proof (induction n)
  case 0
  show ?case by (simp add: still_level_probability_def level_sequences_def sequence_weight_def)
next
  case (Suc n)
  have "still_level_probability p1 p2 (Suc n) =
      sum_list (map (\<lambda>outs. if list_all level_round outs
                  then (p1 * p2 + (1 - p1) * (1 - p2)) * sequence_weight p1 p2 outs else 0)
        (List.n_lists n round_outcomes))"
    unfolding still_level_probability_def level_sequences_def n_lists_Suc_swap level_extensions ..
  also have "\<dots> = (p1 * p2 + (1 - p1) * (1 - p2)) * still_level_probability p1 p2 n"
    unfolding still_level_probability_def level_sequences_def by (rule sum_list_if_filter)
  finally show ?case by (simp add: Suc.IH)
qed

lemma total_probability:
  "sum_list (map (sequence_weight p1 p2) (List.n_lists n round_outcomes)) = 1"
proof (induction n)
  case 0
  show ?case by (simp add: sequence_weight_def)
next
  case (Suc n)
  have e: "sum_list (map (sequence_weight p1 p2 \<circ> (\<lambda>out. out # outs)) round_outcomes) =
        sequence_weight p1 p2 outs" for outs
    by (simp add: round_outcomes_def sequence_weight_def outcome_weight_def algebra_simps)
  have "sum_list (map (sequence_weight p1 p2) (List.n_lists (Suc n) round_outcomes)) =
        sum_list (map (sequence_weight p1 p2) (List.n_lists n round_outcomes))"
    using n_lists_Suc_swap [of "sequence_weight p1 p2" "\<lambda>x. True" n round_outcomes]
    by (simp add: e del: n_lists.simps)
  with Suc.IH show ?case by simp
qed

lemma level_probability_below_1:
  fixes p1 p2 :: real
  assumes "0 < p1" "p1 < 1" "0 < p2" "p2 < 1"
  shows "0 \<le> p1 * p2 + (1 - p1) * (1 - p2) \<and> p1 * p2 + (1 - p1) * (1 - p2) < 1"
proof -
  have "0 < p1 * (1 - p2)" "0 < p2 * (1 - p1)" "0 \<le> p1 * p2" "0 \<le> (1 - p1) * (1 - p2)"
    using assms by (simp_all add: zero_less_mult_iff zero_le_mult_iff)
  moreover have "p1 * p2 + (1 - p1) * (1 - p2) = 1 - p1 * (1 - p2) - p2 * (1 - p1)"
    by (simp add: algebra_simps)
  ultimately show ?thesis by linarith
qed

lemma still_level_probability_vanishes:
  assumes "0 < p1" "p1 < 1" "0 < p2" "p2 < 1" "0 < eps"
  shows "\<exists>n. still_level_probability p1 p2 n < eps"
  using level_probability_below_1 [OF assms(1-4)] real_arch_pow_inv [OF assms(5)]
  by (simp add: still_level_probability_power)

lemma level_round_outcome: "level_round (round_outcome p1 p2 g k) = (\<not> decisive p1 p2 g k)"
  by (auto simp: level_round_def round_outcome_def decisive_def)

lemma set_round_outcomes: "set round_outcomes = UNIV"
  by (auto simp: round_outcomes_def)

lemma level_prefix_iff:
  "(map (round_outcome p1 p2 g) [0..<n] \<in> set (level_sequences n)) =
   (\<forall>k < n. \<not> decisive p1 p2 g k)"
  by (auto simp: level_sequences_def set_n_lists set_round_outcomes list_all_iff level_round_outcome)

lemma sudden_death_level_prefix:
  "(\<forall>j < n. \<not> decisive p1 p2 g j) \<Longrightarrow>
     \<exists>t'. sudden_death p1 p2 t t g = sudden_death p1 p2 t' t' (sdrop (2 * n) g)"
proof (induction n arbitrary: g t)
  case 0
  show ?case by (rule exI [of _ t]) simp
next
  case (Suc n)
  let ?a = "if frac (shd g) < p1 then t + 1 else t"
  let ?b = "if frac (shd (stl g)) < p2 then t + 1 else t"
  from Suc.prems have "\<not> decisive p1 p2 g 0" by simp
  then have ab: "?a = ?b" by (auto simp: decisive_def)
  from Suc.prems have "\<forall>j < n. \<not> decisive p1 p2 (stl (stl g)) j"
    by (simp add: decisive_shift)
  from Suc.IH [OF this, of ?a] obtain t' where
    "sudden_death p1 p2 ?a ?a (stl (stl g)) = sudden_death p1 p2 t' t' (sdrop (2 * n) (stl (stl g)))"
    by blast
  with ab have "sudden_death p1 p2 t t g = sudden_death p1 p2 t' t' (sdrop (2 * Suc n) g)"
    by (subst sudden_death_step) simp
  then show ?case by blast
qed

lemma sudden_death_first_decisive:
  assumes "decisive p1 p2 g k" and "\<forall>j < k. \<not> decisive p1 p2 g j"
  shows "\<exists>a b. a \<noteq> b \<and> sudden_death p1 p2 t t g = Some (a, b, sdrop (2 * Suc k) g)"
proof -
  from sudden_death_level_prefix [OF assms(2), of t] obtain t' where
    e: "sudden_death p1 p2 t t g = sudden_death p1 p2 t' t' (sdrop (2 * k) g)" by blast
  let ?h = "sdrop (2 * k) g"
  let ?a = "if frac (shd ?h) < p1 then t' + 1 else t'"
  let ?b = "if frac (shd (stl ?h)) < p2 then t' + 1 else t'"
  have h: "shd ?h = g !! (2 * k)" "shd (stl ?h) = g !! (2 * k + 1)" "stl (stl ?h) = sdrop (2 * Suc k) g"
    by (simp_all add: sdrop_simps(1) sdrop_stl [symmetric] del: sdrop.simps)
  from assms(1) have ne: "?a \<noteq> ?b" by (auto simp: decisive_def h)
  have "sudden_death p1 p2 t' t' ?h = Some (?a, ?b, stl (stl ?h))"
    unfolding sudden_death_step [of p1 p2 t' ?h] by (rule sudden_death_done [OF ne])
  then have "sudden_death p1 p2 t t g = Some (?a, ?b, sdrop (2 * Suc k) g)"
    unfolding e h(3) .
  with ne show ?thesis by blast
qed

text \<open>
  Claim C9. Both success probabilities are clamped between the doubles \<open>0.6\<close> and \<open>0.9\<close>
  and so lie strictly between 0 and 1. The initial phase makes exactly five attempts per
  side before any sudden-death round: it counts five rounds, takes ten draws, alternating
  between the sides, and each tally is the number of that side's five draws that fell
  below its probability. Sudden death takes one draw per side in each round, goes on
  exactly while the tallies are level, and returns differing tallies after the first round
  in which exactly one side scores. It terminates with probability 1: an attempt succeeds
  with its side's probability, the sequences of \<open>n\<close> rounds have total probability 1, and
  the level ones among them, which are those of the tapes on which sudden death is still
  running after \<open>n\<close> rounds, have total probability
  \<open>(p1 * p2 + (1 - p1) * (1 - p2)) ^ n\<close>, which falls below every positive bound.
\<close>

theorem shootout_structure:
  assumes "penalty_probabilities (rating team1_data) (rating team2_data) = (p1, p2)"
    and "initial_kicks 5 p1 p2 (0, 0, 0) (v_rng v) = ((k1, k2, shots), g1)"
  shows "(double 0.6 \<le> p1 \<and> p1 \<le> double 0.9 \<and> double 0.6 \<le> p2 \<and> p2 \<le> double 0.9 \<and>
          0 < p1 \<and> p1 < 1 \<and> 0 < p2 \<and> p2 < 1) \<and>
         (shots = 5 \<and> g1 = sdrop 10 (v_rng v) \<and>
          k1 = length (filter (\<lambda>i. frac (v_rng v !! (2 * i)) < p1) [0..<5]) \<and>
          k2 = length (filter (\<lambda>i. frac (v_rng v !! (2 * i + 1)) < p2) [0..<5])) \<and>
         (sudden_death p1 p2 t t g =
            sudden_death p1 p2 (fst (penalty_kick p1 t g)) (fst (penalty_kick p2 t (stl g)))
              (stl (stl g))) \<and>
         (t1 \<noteq> t2 \<longrightarrow> sudden_death p1 p2 t1 t2 g = Some (t1, t2, g)) \<and>
         (sudden_death p1 p2 t1 t2 g = Some (a, b, g') \<longrightarrow> a \<noteq> b) \<and>
         (decisive p1 p2 g k \<and> (\<forall>j < k. \<not> decisive p1 p2 g j) \<longrightarrow>
            (\<exists>c d. c \<noteq> d \<and> sudden_death p1 p2 t t g = Some (c, d, sdrop (2 * Suc k) g))) \<and>
         ((\<exists>y. sudden_death p1 p2 t t g = Some y) = (\<exists>j. decisive p1 p2 g j)) \<and>
         ((\<exists>v'. penalty_shootout team1_data team2_data detailed v = Some v') =
            (k1 \<noteq> k2 \<or> (\<exists>j. decisive p1 p2 g1 j))) \<and>
         ((map (round_outcome p1 p2 g) [0..<n] \<in> set (level_sequences n)) =
            (\<forall>j < n. \<not> decisive p1 p2 g j)) \<and>
         sum_list (map (sequence_weight p1 p2) (List.n_lists n round_outcomes)) = 1 \<and>
         still_level_probability p1 p2 n = (p1 * p2 + (1 - p1) * (1 - p2)) ^ n \<and>
         p1 * p2 + (1 - p1) * (1 - p2) < 1 \<and>
         (0 < eps \<longrightarrow> (\<exists>m. still_level_probability p1 p2 m < eps))"
proof -
  note b = penalty_probabilities_bounds [OF assms(1)]
  from b have pos: "0 < p1" "p1 < 1" "0 < p2" "p2 < 1" by simp_all
  have i: "shots = 5 \<and> g1 = sdrop 10 (v_rng v) \<and>
          k1 = length (filter (\<lambda>i. frac (v_rng v !! (2 * i)) < p1) [0..<5]) \<and>
          k2 = length (filter (\<lambda>i. frac (v_rng v !! (2 * i + 1)) < p2) [0..<5])"
    using assms(2) unfolding initial_kicks_count by simp
  have s: "sudden_death p1 p2 t t g =
            sudden_death p1 p2 (fst (penalty_kick p1 t g)) (fst (penalty_kick p2 t (stl g)))
              (stl (stl g))"
    by (subst sudden_death_step) (simp add: penalty_kick_unfold)
  have r: "(\<exists>v'. penalty_shootout team1_data team2_data detailed v = Some v') =
            (k1 \<noteq> k2 \<or> (\<exists>j. decisive p1 p2 g1 j))"
  proof (cases "k1 = k2")
    case True
    then show ?thesis
      using penalty_shootout_returns_iff [OF assms, of detailed]
        sudden_death_returns_iff [of p1 p2 k2 g1] by simp
  next
    case False
    then show ?thesis
      using penalty_shootout_returns_iff [OF assms, of detailed]
        sudden_death_done [OF False, of p1 p2 g1] by simp
  qed
  have f: "decisive p1 p2 g k \<and> (\<forall>j < k. \<not> decisive p1 p2 g j) \<longrightarrow>
            (\<exists>c d. c \<noteq> d \<and> sudden_death p1 p2 t t g = Some (c, d, sdrop (2 * Suc k) g))"
    using sudden_death_first_decisive [of p1 p2 g k t] by blast
  have e: "0 < eps \<longrightarrow> (\<exists>m. still_level_probability p1 p2 m < eps)"
    using still_level_probability_vanishes [OF pos] by blast
  from b i s r f e sudden_death_done [of t1 t2 p1 p2 g] sudden_death_differ [of p1 p2 t1 t2 g a b g']
    sudden_death_returns_iff [of p1 p2 t g] level_prefix_iff [of p1 p2 g n]
    still_level_probability_power [of p1 p2 n] level_probability_below_1 [OF pos]
    total_probability [of p1 p2 n]
  show ?thesis by simp
qed

theorem shootout_structure_witness:
  "penalty_probabilities (rating ghana) (rating mali) = (3 / 4, 3 / 4) \<and>
   initial_kicks 5 (3 / 4) (3 / 4) (0, 0, 0) (v_rng vars_level) =
     ((5, 5, 5), 9 / 10 ## 9 / 10 ## 9 / 10 ## 1 / 10 ## sconst 0) \<and>
   decisive (3 / 4) (3 / 4) (9 / 10 ## 9 / 10 ## 9 / 10 ## 1 / 10 ## sconst 0) 1 \<and>
   \<not> decisive (3 / 4) (3 / 4) (9 / 10 ## 9 / 10 ## 9 / 10 ## 1 / 10 ## sconst 0) 0 \<and>
   (\<exists>v'. penalty_shootout ghana mali False vars_level = Some v') \<and>
   (\<exists>c d. c \<noteq> d \<and>
      sudden_death (3 / 4) (3 / 4) 5 5 (9 / 10 ## 9 / 10 ## 9 / 10 ## 1 / 10 ## sconst 0) =
        Some (c, d, sconst 0)) \<and>
   sudden_death (3 / 4) (3 / 4) 5 6 (9 / 10 ## 9 / 10 ## 9 / 10 ## 1 / 10 ## sconst 0) =
     Some (5, 6, 9 / 10 ## 9 / 10 ## 9 / 10 ## 1 / 10 ## sconst 0) \<and>
   still_level_probability (3 / 4) (3 / 4) 2 = 25 / 64 \<and>
   (\<exists>m. still_level_probability (3 / 4) (3 / 4) m < 1 / 2)"
proof -
  let ?g = "9 / 10 ## 9 / 10 ## 9 / 10 ## 1 / 10 ## sconst (0 :: real)"
  have p: "penalty_probabilities (rating ghana) (rating mali) = (3 / 4, 3 / 4)"
    by (simp add: ghana_def mali_def penalty_probabilities_level)
  have i: "initial_kicks 5 (3 / 4) (3 / 4) (0, 0, 0) (v_rng vars_level) = ((5, 5, 5), ?g)"
    by (simp add: vars_level_def run_initial_kicks)
  have d: "decisive (3 / 4) (3 / 4) ?g 1" "\<not> decisive (3 / 4) (3 / 4) ?g 0"
    by (simp_all add: decisive_def eval_nat_numeral)
  have j: "\<forall>j < 1. \<not> decisive (3 / 4) (3 / 4) ?g j"
    using d(2) by simp
  have t: "sdrop (2 * Suc 1) ?g = sconst 0"
    by (simp add: eval_nat_numeral)
  note th = shootout_structure [OF p i, where t = 5 and g = ?g and k = 1 and detailed = False
      and n = 2 and ?t1.0 = 5 and ?t2.0 = 6 and a = 5 and b = 6 and g' = ?g and eps = "1 / 2"]
  from th have r: "(\<exists>v'. penalty_shootout ghana mali False vars_level = Some v') =
      ((5 :: nat) \<noteq> 5 \<or> (\<exists>j. decisive (3 / 4) (3 / 4) ?g j))"
    by - (elim conjE, assumption)
  from th have f: "decisive (3 / 4) (3 / 4) ?g 1 \<and> (\<forall>j < 1. \<not> decisive (3 / 4) (3 / 4) ?g j) \<longrightarrow>
      (\<exists>c d. c \<noteq> d \<and> sudden_death (3 / 4) (3 / 4) 5 5 ?g = Some (c, d, sdrop (2 * Suc 1) ?g))"
    by - (elim conjE, assumption)
  from th have w: "still_level_probability (3 / 4) (3 / 4) 2 =
      (3 / 4 * (3 / 4) + (1 - 3 / 4) * (1 - 3 / 4)) ^ 2"
    by - (elim conjE, assumption)
  from th have x: "(5 :: nat) \<noteq> 6 \<longrightarrow> sudden_death (3 / 4) (3 / 4) 5 6 ?g = Some (5, 6, ?g)"
    by - (elim conjE, assumption)
  from th have y: "(0 :: real) < 1 / 2 \<longrightarrow> (\<exists>m. still_level_probability (3 / 4) (3 / 4) m < 1 / 2)"
    by - (elim conjE, assumption)
  from x have x': "sudden_death (3 / 4) (3 / 4) 5 6 ?g = Some (5, 6, ?g)"
    by simp
  from y have y': "\<exists>m. still_level_probability (3 / 4) (3 / 4) m < 1 / 2"
    by simp
  from r d(1) have r': "\<exists>v'. penalty_shootout ghana mali False vars_level = Some v'"
    by blast
  from f d(1) j have f': "\<exists>c d. c \<noteq> d \<and> sudden_death (3 / 4) (3 / 4) 5 5 ?g = Some (c, d, sconst 0)"
    unfolding t by blast
  from w have w': "still_level_probability (3 / 4) (3 / 4) 2 = 25 / 64"
    by (simp add: power2_eq_square)
  from p i d r' f' x' w' y' show ?thesis by blast
qed

section \<open>Knockout matches\<close>

lemma extra_time_period_kept:
  assumes "extra_time_period t1 t2 detailed v = Inr v4"
  shows "v_team1_goals v4 = v_team1_goals v +
           fst (fst (extra_time_goals (v_base_goals_team1 v) (v_base_goals_team2 v) (v_rng v)))"
    "v_team2_goals v4 = v_team2_goals v +
           snd (fst (extra_time_goals (v_base_goals_team1 v) (v_base_goals_team2 v) (v_rng v)))"
    "v_decided_by v4 = v_decided_by v" "v_penalty_score v4 = v_penalty_score v"
    "v_used_extra_time v4"
proof -
  obtain extra1 extra2 g1 where e:
    "extra_time_goals (v_base_goals_team1 v) (v_base_goals_team2 v) (v_rng v) = ((extra1, extra2), g1)"
    by (metis prod.exhaust)
  let ?v1 = "v\<lparr>v_used_extra_time := True, v_rng := g1\<rparr>"
  let ?ev = "if detailed
             then (case extra_time_events (nat extra1) t1 ?v1 of
                     Inl e \<Rightarrow> Inl e
                   | Inr v2 \<Rightarrow> extra_time_events (nat extra2) t2 v2)
             else Inr ?v1"
  note eq = assms [unfolded extra_time_period_def e prod.case Let_def]
  have "v_team1_goals v4 = v_team1_goals v + extra1 \<and> v_team2_goals v4 = v_team2_goals v + extra2 \<and>
        v_decided_by v4 = v_decided_by v \<and> v_penalty_score v4 = v_penalty_score v \<and>
        v_used_extra_time v4"
  proof (cases ?ev)
    case (Inl x)
    with eq show ?thesis by simp
  next
    case (Inr v3)
    have k: "kept v3 = kept ?v1"
    proof (cases detailed)
      case True
      with Inr obtain v2 where a: "extra_time_events (nat extra1) t1 ?v1 = Inr v2"
        and b: "extra_time_events (nat extra2) t2 v2 = Inr v3"
        by (auto split: sum.splits)
      from extra_time_events_kept [OF a] extra_time_events_kept [OF b] show ?thesis by simp
    next
      case False
      with Inr show ?thesis by simp
    qed
    from eq Inr have "v4 = v3\<lparr>v_team1_goals := v_team1_goals v3 + extra1,
                                v_team2_goals := v_team2_goals v3 + extra2\<rparr>"
      by simp
    with k show ?thesis by (simp add: kept_def)
  qed
  then show "v_team1_goals v4 = v_team1_goals v +
           fst (fst (extra_time_goals (v_base_goals_team1 v) (v_base_goals_team2 v) (v_rng v)))"
    "v_team2_goals v4 = v_team2_goals v +
           snd (fst (extra_time_goals (v_base_goals_team1 v) (v_base_goals_team2 v) (v_rng v)))"
    "v_decided_by v4 = v_decided_by v" "v_penalty_score v4 = v_penalty_score v"
    "v_used_extra_time v4"
    by (simp_all add: e)
qed

lemma simulate_match_after_extra_time:
  assumes "regulation t1 t2 detailed g = Inr v"
    and "v_team1_goals v = v_team2_goals v"
    and "extra_time_period t1 t2 detailed v = Inr v4"
  shows "simulate_match t1 t2 detailed True g =
     (if v_team1_goals v4 \<noteq> v_team2_goals v4
      then Some (match_result_of t1 t2 True (v4\<lparr>v_decided_by := Some ''extra_time''\<rparr>))
      else (case penalty_shootout t1 t2 detailed v4 of
              None \<Rightarrow> None
            | Some v' \<Rightarrow> Some (match_result_of t1 t2 True v')))"
  using assms by (simp add: simulate_match_def knockout_extra_time_def split: option.splits)

lemma extra_time_decides:
  assumes "regulation t1 t2 detailed g = Inr v"
    and "v_team1_goals v = v_team2_goals v"
    and "extra_time_period t1 t2 detailed v = Inr v4"
    and "v_team1_goals v4 \<noteq> v_team2_goals v4"
  shows "\<exists>r. simulate_match t1 t2 detailed True g = Some (Inr r) \<and>
             team1_goals r = v_team1_goals v4 \<and> team2_goals r = v_team2_goals v4 \<and>
             penalty_score r = None \<and> decided_by r = Some ''extra_time'' \<and>
             winner r = (if v_team2_goals v4 < v_team1_goals v4 then country t1 else country t2)"
proof -
  from regulation_kept [OF assms(1)] extra_time_period_kept(4) [OF assms(3)]
  have n: "v_penalty_score v4 = None" by simp
  from assms(4) n show ?thesis
    unfolding simulate_match_after_extra_time [OF assms(1-3)]
    by (simp add: match_result_of_def winner_of_def)
qed

lemma shootout_decides:
  assumes "regulation t1 t2 detailed g = Inr v"
    and "v_team1_goals v = v_team2_goals v"
    and "extra_time_period t1 t2 detailed v = Inr v4"
    and "v_team1_goals v4 = v_team2_goals v4"
    and "penalty_probabilities (rating t1) (rating t2) = (p1, p2)"
    and "initial_kicks 5 p1 p2 (0, 0, 0) (v_rng v4) = ((k1, k2, shots), g1)"
  shows "sudden_death p1 p2 k1 k2 g1 = None \<Longrightarrow> simulate_match t1 t2 detailed True g = None"
    and "sudden_death p1 p2 k1 k2 g1 = Some (a, b, g2) \<Longrightarrow>
         \<exists>r. simulate_match t1 t2 detailed True g = Some (Inr r) \<and>
             team1_goals r = v_team1_goals v4 \<and> team2_goals r = v_team2_goals v4 \<and>
             penalty_score r = Some (str_nat a @ ''-'' @ str_nat b) \<and>
             decided_by r = Some ''penalties'' \<and>
             winner r = (if b < a then country t1 else country t2)"
proof -
  assume "sudden_death p1 p2 k1 k2 g1 = None"
  then have "penalty_shootout t1 t2 detailed v4 = None"
    by (simp add: penalty_shootout_def assms(5) assms(6))
  with assms(4) show "simulate_match t1 t2 detailed True g = None"
    unfolding simulate_match_after_extra_time [OF assms(1-3)] by simp
next
  assume sd: "sudden_death p1 p2 k1 k2 g1 = Some (a, b, g2)"
  let ?ps = "str_nat a @ ''-'' @ str_nat b"
  let ?v' = "v4\<lparr>v_match_events :=
                     (if detailed
                      then v_match_events v4 @
                        [\<lparr>ev_minute = 120, ev_type = ''penalties'', ev_team = ''Both'',
                          ev_player = ''Shootout '' @ ?ps\<rparr>]
                      else v_match_events v4),
                   v_decided_by := Some ''penalties'',
                   v_penalty_score := Some ?ps,
                   v_rng := g2\<rparr>"
  have ps: "penalty_shootout t1 t2 detailed v4 = Some ?v'"
    by (simp add: penalty_shootout_def assms(5) assms(6) sd Let_def)
  have w: "winner_of (country t1) (country t2) (v_team1_goals ?v') (v_team2_goals ?v')
             (v_penalty_score ?v') True = Inr (if b < a then country t1 else country t2)"
    using assms(4) winner_of_penalties [of "country t1" "country t2" "v_team2_goals v4" a b]
    by simp
  have "\<exists>r. match_result_of t1 t2 True ?v' = Inr r \<and>
             team1_goals r = v_team1_goals v4 \<and> team2_goals r = v_team2_goals v4 \<and>
             penalty_score r = Some ?ps \<and> decided_by r = Some ''penalties'' \<and>
             winner r = (if b < a then country t1 else country t2)"
    unfolding match_result_of_def w by simp
  with assms(4) show "\<exists>r. simulate_match t1 t2 detailed True g = Some (Inr r) \<and>
             team1_goals r = v_team1_goals v4 \<and> team2_goals r = v_team2_goals v4 \<and>
             penalty_score r = Some ?ps \<and> decided_by r = Some ''penalties'' \<and>
             winner r = (if b < a then country t1 else country t2)"
    unfolding simulate_match_after_extra_time [OF assms(1-3)] ps by simp
qed

lemma shootout_returns_iff:
  assumes "regulation t1 t2 detailed g = Inr v"
    and "v_team1_goals v = v_team2_goals v"
    and "extra_time_period t1 t2 detailed v = Inr v4"
    and "v_team1_goals v4 = v_team2_goals v4"
    and "penalty_probabilities (rating t1) (rating t2) = (p1, p2)"
    and "initial_kicks 5 p1 p2 (0, 0, 0) (v_rng v4) = ((k1, k2, shots), g1)"
  shows "(\<exists>r. simulate_match t1 t2 detailed True g = Some (Inr r)) =
           (k1 \<noteq> k2 \<or> (\<exists>k. decisive p1 p2 g1 k))"
    and "simulate_match t1 t2 detailed True g \<noteq> Some (Inl e)"
    and "simulate_match t1 t2 detailed True g = Some (Inr r) \<Longrightarrow>
           \<exists>a b g2. sudden_death p1 p2 k1 k2 g1 = Some (a, b, g2) \<and> a \<noteq> b \<and>
             penalty_score r = Some (str_nat a @ ''-'' @ str_nat b) \<and>
             winner r = (if b < a then country t1 else country t2) \<and>
             decided_by r = Some ''penalties'' \<and>
             team1_goals r = v_team1_goals v4 \<and> team2_goals r = v_team2_goals v4 \<and>
             team1_goals r = team2_goals r"
proof -
  have y: "(\<exists>y. sudden_death p1 p2 k1 k2 g1 = Some y) = (k1 \<noteq> k2 \<or> (\<exists>k. decisive p1 p2 g1 k))"
  proof (cases "k1 = k2")
    case True
    then show ?thesis using sudden_death_returns_iff [of p1 p2 k2 g1] by simp
  next
    case False
    then show ?thesis using sudden_death_done [OF False, of p1 p2 g1] by simp
  qed
  note d = shootout_decides [OF assms]
  show "(\<exists>r. simulate_match t1 t2 detailed True g = Some (Inr r)) =
           (k1 \<noteq> k2 \<or> (\<exists>k. decisive p1 p2 g1 k))"
  proof (cases "sudden_death p1 p2 k1 k2 g1")
    case None
    from d(1) [OF None] None y show ?thesis by simp
  next
    case (Some q)
    obtain a b g2 where q: "q = (a, b, g2)" by (cases q)
    from d(2) [of a b g2] Some q have "\<exists>r. simulate_match t1 t2 detailed True g = Some (Inr r)"
      by blast
    moreover from Some y have "k1 \<noteq> k2 \<or> (\<exists>k. decisive p1 p2 g1 k)" by blast
    ultimately show ?thesis by simp
  qed
  show "simulate_match t1 t2 detailed True g \<noteq> Some (Inl e)"
  proof (cases "sudden_death p1 p2 k1 k2 g1")
    case None
    from d(1) [OF None] show ?thesis by simp
  next
    case (Some q)
    obtain a b g2 where q: "q = (a, b, g2)" by (cases q)
    from d(2) [of a b g2] Some q show ?thesis by auto
  qed
  assume r: "simulate_match t1 t2 detailed True g = Some (Inr r)"
  show "\<exists>a b g2. sudden_death p1 p2 k1 k2 g1 = Some (a, b, g2) \<and> a \<noteq> b \<and>
             penalty_score r = Some (str_nat a @ ''-'' @ str_nat b) \<and>
             winner r = (if b < a then country t1 else country t2) \<and>
             decided_by r = Some ''penalties'' \<and>
             team1_goals r = v_team1_goals v4 \<and> team2_goals r = v_team2_goals v4 \<and>
             team1_goals r = team2_goals r"
  proof (cases "sudden_death p1 p2 k1 k2 g1")
    case None
    from d(1) [OF None] r show ?thesis by simp
  next
    case (Some q)
    obtain a b g2 where q: "q = (a, b, g2)" by (cases q)
    from Some q have sd: "sudden_death p1 p2 k1 k2 g1 = Some (a, b, g2)" by simp
    from d(2) [OF sd] r have
      "penalty_score r = Some (str_nat a @ ''-'' @ str_nat b) \<and>
       winner r = (if b < a then country t1 else country t2) \<and>
       decided_by r = Some ''penalties'' \<and>
       team1_goals r = v_team1_goals v4 \<and> team2_goals r = v_team2_goals v4"
      by auto
    with sd sudden_death_differ [OF sd] assms(4) show ?thesis by simp
  qed
qed

text \<open>
  Claim C2. Take a knockout simulation whose regulation time ends in the state \<open>v\<close>. A
  returned winner is one of the two teams, so it is never \<open>Draw\<close> (the winner is a string,
  so this needs that no team is itself called \<open>Draw\<close>). When regulation ends level and
  extra time ends in the state \<open>v4\<close>, the totals of \<open>v4\<close> are those of regulation plus the
  extra-time goals. If they differ, a result is returned with these totals, decided in
  extra time, won by the higher scorer. If they are level, the shootout is entered with the
  tallies \<open>k1\<close>, \<open>k2\<close> of the initial rounds: the call never raises, it returns a result
  exactly when the initial tallies differ or some sudden-death round separates them, and a
  returned result carries the final tallies \<open>a \<noteq> b\<close> of the shootout as the penalty score
  \<open>a-b\<close>, names the team with the higher tally as the winner, and records as goal totals
  the level totals reached after extra time, which the shootout leaves as they are.
\<close>

theorem knockout_winner:
  assumes "regulation team1_data team2_data detailed g = Inr v"
  shows "(\<forall>r. simulate_match team1_data team2_data detailed True g = Some (Inr r) \<longrightarrow>
            (winner r = country team1_data \<or> winner r = country team2_data) \<and>
            (country team1_data \<noteq> ''Draw'' \<and> country team2_data \<noteq> ''Draw'' \<longrightarrow>
               winner r \<noteq> ''Draw'')) \<and>
         (v_team1_goals v = v_team2_goals v \<and>
          extra_time_period team1_data team2_data detailed v = Inr v4 \<longrightarrow>
            v_team1_goals v4 = v_team1_goals v +
              fst (fst (extra_time_goals (v_base_goals_team1 v) (v_base_goals_team2 v) (v_rng v))) \<and>
            v_team2_goals v4 = v_team2_goals v +
              snd (fst (extra_time_goals (v_base_goals_team1 v) (v_base_goals_team2 v) (v_rng v))) \<and>
            (v_team1_goals v4 \<noteq> v_team2_goals v4 \<longrightarrow>
               (\<exists>r. simulate_match team1_data team2_data detailed True g = Some (Inr r) \<and>
                    team1_goals r = v_team1_goals v4 \<and> team2_goals r = v_team2_goals v4 \<and>
                    penalty_score r = None \<and> decided_by r = Some ''extra_time'' \<and>
                    winner r = (if v_team2_goals v4 < v_team1_goals v4 then country team1_data
                                else country team2_data))) \<and>
            (v_team1_goals v4 = v_team2_goals v4 \<and>
             penalty_probabilities (rating team1_data) (rating team2_data) = (p1, p2) \<and>
             initial_kicks 5 p1 p2 (0, 0, 0) (v_rng v4) = ((k1, k2, shots), g1) \<longrightarrow>
               ((\<exists>r. simulate_match team1_data team2_data detailed True g = Some (Inr r)) =
                  (k1 \<noteq> k2 \<or> (\<exists>k. decisive p1 p2 g1 k))) \<and>
               (\<forall>e. simulate_match team1_data team2_data detailed True g \<noteq> Some (Inl e)) \<and>
               (\<forall>r. simulate_match team1_data team2_data detailed True g = Some (Inr r) \<longrightarrow>
                  (\<exists>a b g2. sudden_death p1 p2 k1 k2 g1 = Some (a, b, g2) \<and> a \<noteq> b \<and>
                     penalty_score r = Some (str_nat a @ ''-'' @ str_nat b) \<and>
                     winner r = (if b < a then country team1_data else country team2_data) \<and>
                     decided_by r = Some ''penalties'' \<and>
                     team1_goals r = v_team1_goals v4 \<and> team2_goals r = v_team2_goals v4 \<and>
                     team1_goals r = team2_goals r))))"
proof (intro conjI allI impI)
  fix r
  assume r: "simulate_match team1_data team2_data detailed True g = Some (Inr r)"
  from knockout_result_winner [OF r]
  show "winner r = country team1_data \<or> winner r = country team2_data" by simp
  assume "country team1_data \<noteq> ''Draw'' \<and> country team2_data \<noteq> ''Draw''"
  with knockout_result_winner [OF r] show "winner r \<noteq> ''Draw''" by simp
next
  assume a: "v_team1_goals v = v_team2_goals v \<and>
    extra_time_period team1_data team2_data detailed v = Inr v4"
  then have t: "v_team1_goals v = v_team2_goals v"
    and e: "extra_time_period team1_data team2_data detailed v = Inr v4" by simp_all
  from extra_time_period_kept(1) [OF e]
  show "v_team1_goals v4 = v_team1_goals v +
      fst (fst (extra_time_goals (v_base_goals_team1 v) (v_base_goals_team2 v) (v_rng v)))" .
  from extra_time_period_kept(2) [OF e]
  show "v_team2_goals v4 = v_team2_goals v +
      snd (fst (extra_time_goals (v_base_goals_team1 v) (v_base_goals_team2 v) (v_rng v)))" .
  {
    assume "v_team1_goals v4 \<noteq> v_team2_goals v4"
    from extra_time_decides [OF assms t e this]
    show "\<exists>r. simulate_match team1_data team2_data detailed True g = Some (Inr r) \<and>
            team1_goals r = v_team1_goals v4 \<and> team2_goals r = v_team2_goals v4 \<and>
            penalty_score r = None \<and> decided_by r = Some ''extra_time'' \<and>
            winner r = (if v_team2_goals v4 < v_team1_goals v4 then country team1_data
                        else country team2_data)" .
  }
  assume b: "v_team1_goals v4 = v_team2_goals v4 \<and>
    penalty_probabilities (rating team1_data) (rating team2_data) = (p1, p2) \<and>
    initial_kicks 5 p1 p2 (0, 0, 0) (v_rng v4) = ((k1, k2, shots), g1)"
  then have l: "v_team1_goals v4 = v_team2_goals v4"
    and p: "penalty_probabilities (rating team1_data) (rating team2_data) = (p1, p2)"
    and i: "initial_kicks 5 p1 p2 (0, 0, 0) (v_rng v4) = ((k1, k2, shots), g1)" by simp_all
  note s = shootout_returns_iff [OF assms t e l p i]
  from s(1) show "(\<exists>r. simulate_match team1_data team2_data detailed True g = Some (Inr r)) =
      (k1 \<noteq> k2 \<or> (\<exists>k. decisive p1 p2 g1 k))" .
  {
    fix e'
    from s(2) show "simulate_match team1_data team2_data detailed True g \<noteq> Some (Inl e')" .
  }
  fix r
  assume "simulate_match team1_data team2_data detailed True g = Some (Inr r)"
  from s(3) [OF this]
  show "\<exists>a b g2. sudden_death p1 p2 k1 k2 g1 = Some (a, b, g2) \<and> a \<noteq> b \<and>
          penalty_score r = Some (str_nat a @ ''-'' @ str_nat b) \<and>
          winner r = (if b < a then country team1_data else country team2_data) \<and>
          decided_by r = Some ''penalties'' \<and>
          team1_goals r = v_team1_goals v4 \<and> team2_goals r = v_team2_goals v4 \<and>
          team1_goals r = team2_goals r" .
qed

theorem knockout_winner_witness:
  "regulation ghana mali False tape_penalties = Inr vars_tied \<and>
   v_team1_goals vars_tied = v_team2_goals vars_tied \<and>
   extra_time_period ghana mali False vars_tied = Inr vars_level \<and>
   v_team1_goals vars_level = v_team2_goals vars_level \<and>
   penalty_probabilities (rating ghana) (rating mali) = (3 / 4, 3 / 4) \<and>
   initial_kicks 5 (3 / 4) (3 / 4) (0, 0, 0) (v_rng vars_level) =
     ((5, 5, 5), 9 / 10 ## 9 / 10 ## 9 / 10 ## 1 / 10 ## sconst 0) \<and>
   decisive (3 / 4) (3 / 4) (9 / 10 ## 9 / 10 ## 9 / 10 ## 1 / 10 ## sconst 0) 1 \<and>
   sudden_death (3 / 4) (3 / 4) 5 5 (9 / 10 ## 9 / 10 ## 9 / 10 ## 1 / 10 ## sconst 0) =
     Some (5, 6, sconst 0) \<and>
   simulate_match ghana mali False True tape_penalties = Some (Inr result_penalties) \<and>
   penalty_score result_penalties = Some (str_nat 5 @ ''-'' @ str_nat 6) \<and>
   winner result_penalties = country mali \<and>
   decided_by result_penalties = Some ''penalties'' \<and>
   team1_goals result_penalties = v_team1_goals vars_level \<and>
   team2_goals result_penalties = v_team2_goals vars_level \<and>
   team1_goals result_penalties = team2_goals result_penalties"
proof -
  let ?g = "9 / 10 ## 9 / 10 ## 9 / 10 ## 1 / 10 ## sconst (0 :: real)"
  have reg: "regulation ghana mali False tape_penalties = Inr vars_tied"
    unfolding tape_penalties_def run_regulation_0_0 by (simp add: vars_tied_def)
  have t: "v_team1_goals vars_tied = v_team2_goals vars_tied"
    by (simp add: vars_tied_def)
  have e: "extra_time_goals (3 / 2) (3 / 2) (0 ## 0 ## g) = ((0, 0), g)" for g
    by (simp add: extra_time_goals_SCons py_round_def)
  have etp: "extra_time_period ghana mali False vars_tied = Inr vars_level"
    by (simp add: extra_time_period_def vars_tied_def e vars_level_def)
  have l: "v_team1_goals vars_level = v_team2_goals vars_level"
    by (simp add: vars_level_def)
  have p: "penalty_probabilities (rating ghana) (rating mali) = (3 / 4, 3 / 4)"
    by (simp add: ghana_def mali_def penalty_probabilities_level)
  have i: "initial_kicks 5 (3 / 4) (3 / 4) (0, 0, 0) (v_rng vars_level) = ((5, 5, 5), ?g)"
    by (simp add: vars_level_def run_initial_kicks)
  have d: "decisive (3 / 4) (3 / 4) ?g 1"
    by (simp add: decisive_def eval_nat_numeral)
  have sd: "sudden_death (3 / 4) (3 / 4) 5 5 ?g = Some (5, 6, sconst 0)"
    by (rule run_sudden_death)
  note th = knockout_winner [OF reg, where ?v4.0 = vars_level and ?p1.0 = "3 / 4"
      and ?p2.0 = "3 / 4" and ?k1.0 = 5 and ?k2.0 = 5 and shots = 5 and ?g1.0 = ?g]
  from th t etp l p i have
    "\<forall>r. simulate_match ghana mali False True tape_penalties = Some (Inr r) \<longrightarrow>
       (\<exists>a b g2. sudden_death (3 / 4) (3 / 4) 5 5 ?g = Some (a, b, g2) \<and> a \<noteq> b \<and>
          penalty_score r = Some (str_nat a @ ''-'' @ str_nat b) \<and>
          winner r = (if b < a then country ghana else country mali) \<and>
          decided_by r = Some ''penalties'' \<and>
          team1_goals r = v_team1_goals vars_level \<and> team2_goals r = v_team2_goals vars_level \<and>
          team1_goals r = team2_goals r)"
    by blast
  with run_penalties sd have
    "penalty_score result_penalties = Some (str_nat 5 @ ''-'' @ str_nat 6) \<and>
     winner result_penalties = country mali \<and>
     decided_by result_penalties = Some ''penalties'' \<and>
     team1_goals result_penalties = v_team1_goals vars_level \<and>
     team2_goals result_penalties = v_team2_goals vars_level \<and>
     team1_goals result_penalties = team2_goals result_penalties"
    by fastforce
  with reg t etp l p i d sd run_penalties show ?thesis by blast
qed

section \<open>The notification of a completed match\<close>

lemma py_get_penalty_score: "py_get (penalty_score_value r) k d = Inl AttributeError"
  by (simp add: py_get_def penalty_score_value_def split: option.splits)

text \<open>
  Claim C10. For a result decided on penalties the function returns \<open>False\<close>: either the
  mail is not configured or no address is known, or the body construction calls
  \<^verbatim>\<open>.get\<close> on the penalty score, which is a string, and the handler returns
  \<open>False\<close>. The function is total: it returns a boolean on every input.
\<close>

theorem penalties_email_not_sent:
  assumes "decided_by result = Some ''penalties''"
  shows "send_match_completion_email env smtp match_data result = False"
  using assms
  unfolding send_match_completion_email_def send_attempt_def Let_def py_get_penalty_score
  by (simp split: if_splits)

theorem penalties_email_not_sent_witness:
  "decided_by result_penalties = Some ''penalties'' \<and>
   send_match_completion_email league_env (\<lambda>m. True) (quarterfinal_doc result_penalties)
     result_penalties = False"
  using penalties_email_not_sent
    [of result_penalties league_env "\<lambda>m. True" "quarterfinal_doc result_penalties"]
  by (simp add: result_penalties_def)

lemma other_email_sent:
  "send_match_completion_email league_env (\<lambda>m. True) (quarterfinal_doc result_et) result_et = True"
  by (simp add: send_match_completion_email_def send_attempt_def league_env_def truthy_def
      quarterfinal_doc_def ghana_def mali_def result_et_def)

section \<open>Creating the bracket\<close>

lemma create_rejects_fewer:
  "length (teams w) < 8 \<Longrightarrow>
     api_create_tournament w =
       (\<lparr>r_success = False, r_error = Some ''Need exactly 8 teams to create tournament'',
         r_status = 400\<rparr>, w)"
  by (simp add: api_create_tournament_def)

lemma create_accepts_eight_or_more:
  "8 \<le> length (teams w) \<Longrightarrow>
     r_success (fst (api_create_tournament w)) \<and>
     map (\<lambda>m. (m_round m, m_team1 m, m_team2 m, m_status m))
       (matches (snd (api_create_tournament w))) =
       map (\<lambda>i. (Some ''quarterfinal'', teams w ! i, teams w ! (i + 1), Some ''scheduled''))
         [0, 2, 4, 6]"
  by (simp add: api_create_tournament_def add_match_def Let_def)

text \<open>
  Claim C3 at nine registered teams: the creation is not rejected. It answers with
  success and creates the four quarterfinals from the first eight teams.
\<close>

theorem create_tournament_nine_teams:
  "length (teams world_nine) = 9 \<and>
   r_success (fst (api_create_tournament world_nine)) \<and>
   r_status (fst (api_create_tournament world_nine)) = 200 \<and>
   map (\<lambda>m. (m_round m, country (m_team1 m), country (m_team2 m)))
     (matches (snd (api_create_tournament world_nine))) =
     [(Some ''quarterfinal'', ''Algeria'', ''Benin''), (Some ''quarterfinal'', ''Chad'', ''Egypt''),
      (Some ''quarterfinal'', ''Ghana'', ''Kenya''), (Some ''quarterfinal'', ''Mali'', ''Niger'')]"
  by (simp add: api_create_tournament_def add_match_def world_nine_def team_named_def Let_def)

section \<open>Bracket progression\<close>

lemma in_round_add_match:
  "in_round r (matches (add_match r' a b w)) =
     in_round r (matches w) @
       (if r = r' then [\<lparr>m_round = Some r', m_team1 = a, m_team2 = b, m_status = Some ''scheduled'',
                         m_created_at = Some (shd (clock w)), m_result = None\<rparr>] else [])"
  by (auto simp: in_round_def add_match_def)

lemma teams_add_match: "teams (add_match r a b w) = teams w"
  by (simp add: add_match_def)

lemma not_all_completed_scheduled:
  "m_status m = Some ''scheduled'' \<Longrightarrow> \<not> all_completed (xs @ m # ys)"
  by (simp add: all_completed_def)

lemma not_all_completed_Nil: "\<not> all_completed []"
  by (simp add: all_completed_def)

lemma progress_noop:
  assumes "\<not> (all_completed (in_round ''quarterfinal'' (matches w)) \<and>
              in_round ''semifinal'' (matches w) = [])"
    and "\<not> (all_completed (in_round ''semifinal'' (matches w)) \<and>
             in_round ''final'' (matches w) = [])"
  shows "progress_tournament_if_ready w = w"
  using assms by (auto simp: progress_tournament_if_ready_def Let_def)

lemma progress_cases:
  obtains (none) "progress_tournament_if_ready w = w"
  | (semis) a b c d where "in_round ''semifinal'' (matches w) = []"
      "progress_tournament_if_ready w =
         add_match ''semifinal'' c d (add_match ''semifinal'' a b w)"
  | (final) a b where "all_completed (in_round ''semifinal'' (matches w))"
      "progress_tournament_if_ready w = add_match ''final'' a b w"
proof (cases "all_completed (in_round ''quarterfinal'' (matches w)) \<and>
              in_round ''semifinal'' (matches w) = []")
  case True
  then have s: "in_round ''semifinal'' (matches w) = []" by simp
  let ?ws = "round_winners (teams w)
               (sort_key created_key (in_round ''quarterfinal'' (matches w)))"
  show ?thesis
  proof (cases "4 \<le> length ?ws")
    case four: True
    with True have "progress_tournament_if_ready w =
         add_match ''semifinal'' (?ws ! 2) (?ws ! 3) (add_match ''semifinal'' (?ws ! 0) (?ws ! 1) w)"
      by (simp add: progress_tournament_if_ready_def Let_def not_all_completed_Nil)
    with s show ?thesis by (rule semis)
  next
    case False
    with True have "progress_tournament_if_ready w = w"
      by (simp add: progress_tournament_if_ready_def Let_def not_all_completed_Nil)
    then show ?thesis by (rule none)
  qed
next
  case False
  note nq = this
  show ?thesis
  proof (cases "all_completed (in_round ''semifinal'' (matches w)) \<and>
                in_round ''final'' (matches w) = []")
    case False
    with nq have "progress_tournament_if_ready w = w" by (rule progress_noop)
    then show ?thesis by (rule none)
  next
    case True
    let ?ws = "round_winners (teams w)
                 (sort_key created_key (in_round ''semifinal'' (matches w)))"
    show ?thesis
    proof (cases "2 \<le> length ?ws")
      case two: True
      with True nq have "progress_tournament_if_ready w =
           add_match ''final'' (?ws ! 0) (?ws ! 1) w"
        by (auto simp add: progress_tournament_if_ready_def Let_def)
      with True show ?thesis by (intro final) auto
    next
      case False
      with True nq have "progress_tournament_if_ready w = w"
        by (auto simp add: progress_tournament_if_ready_def Let_def)
      then show ?thesis by (rule none)
    qed
  qed
qed

lemma progress_idempotent:
  "progress_tournament_if_ready (progress_tournament_if_ready w) = progress_tournament_if_ready w"
proof (cases w rule: progress_cases)
  case none
  then show ?thesis by simp
next
  case (semis a b c d)
  let ?w' = "add_match ''semifinal'' c d (add_match ''semifinal'' a b w)"
  have "in_round ''semifinal'' (matches ?w') \<noteq> []"
    by (simp add: in_round_add_match)
  moreover have "\<not> all_completed (in_round ''semifinal'' (matches ?w'))"
    by (simp add: in_round_add_match not_all_completed_scheduled)
  ultimately have "progress_tournament_if_ready ?w' = ?w'"
    by (intro progress_noop) auto
  with semis show ?thesis by simp
next
  case (final a b)
  let ?w' = "add_match ''final'' a b w"
  from final(1) have "in_round ''semifinal'' (matches w) \<noteq> []"
    by (auto simp: all_completed_def)
  then have "in_round ''semifinal'' (matches ?w') \<noteq> []"
    by (simp add: in_round_add_match)
  moreover have "in_round ''final'' (matches ?w') \<noteq> []"
    by (simp add: in_round_add_match)
  ultimately have "progress_tournament_if_ready ?w' = ?w'"
    by (intro progress_noop) auto
  with final show ?thesis by simp
qed

lemma get_team_by_country_Some:
  "get_team_by_country ts c = Some t \<Longrightarrow> c = Some (country t) \<and> t \<in> set ts"
  by (auto simp: get_team_by_country_def find_Some_iff split: option.splits if_splits)

text \<open>
  Claim C6. With four quarterfinals, all completed, whose winners are registered teams,
  and no semifinal, the progression adds exactly two scheduled semifinals: the winners of
  the first and second quarterfinal in the order of creation time, then the winners of the
  third and fourth. Running the progression again changes nothing, in any state.
\<close>

theorem semifinals_from_quarterfinals:
  assumes "sort_key created_key (in_round ''quarterfinal'' (matches w)) = [qf1, qf2, qf3, qf4]"
    and "list_all (\<lambda>m. m_status m = Some ''completed'') [qf1, qf2, qf3, qf4]"
    and "in_round ''semifinal'' (matches w) = []"
    and "get_team_by_country (teams w) (map_option winner (m_result qf1)) = Some ta"
    and "get_team_by_country (teams w) (map_option winner (m_result qf2)) = Some tb"
    and "get_team_by_country (teams w) (map_option winner (m_result qf3)) = Some tc"
    and "get_team_by_country (teams w) (map_option winner (m_result qf4)) = Some td"
  shows "matches (progress_tournament_if_ready w) =
           matches w @
             [\<lparr>m_round = Some ''semifinal'', m_team1 = ta, m_team2 = tb,
               m_status = Some ''scheduled'', m_created_at = Some (clock w !! 0),
               m_result = None\<rparr>,
              \<lparr>m_round = Some ''semifinal'', m_team1 = tc, m_team2 = td,
               m_status = Some ''scheduled'', m_created_at = Some (clock w !! 1),
               m_result = None\<rparr>] \<and>
         map_option winner (m_result qf1) = Some (country ta) \<and>
         map_option winner (m_result qf2) = Some (country tb) \<and>
         map_option winner (m_result qf3) = Some (country tc) \<and>
         map_option winner (m_result qf4) = Some (country td) \<and>
         progress_tournament_if_ready (progress_tournament_if_ready w) =
           progress_tournament_if_ready w"
proof -
  let ?qs = "in_round ''quarterfinal'' (matches w)"
  have "length (sort_key created_key ?qs) = 4" by (simp add: assms(1))
  then have len: "0 < length ?qs" by simp
  have "set ?qs = set [qf1, qf2, qf3, qf4]"
    using assms(1) by (metis set_sort)
  with assms(2) have "list_all (\<lambda>m. m_status m = Some ''completed'') ?qs"
    by (simp add: list_all_iff)
  with len have q: "all_completed ?qs" by (simp add: all_completed_def)
  have ws: "round_winners (teams w) [qf1, qf2, qf3, qf4] = [ta, tb, tc, td]"
    by (simp add: round_winners_def List.map_filter_simps assms(4-7))
  have "progress_tournament_if_ready w =
          add_match ''semifinal'' tc td (add_match ''semifinal'' ta tb w)"
    by (simp add: progress_tournament_if_ready_def Let_def q assms(1,3) ws not_all_completed_Nil)
  then have m: "matches (progress_tournament_if_ready w) =
           matches w @
             [\<lparr>m_round = Some ''semifinal'', m_team1 = ta, m_team2 = tb,
               m_status = Some ''scheduled'', m_created_at = Some (clock w !! 0),
               m_result = None\<rparr>,
              \<lparr>m_round = Some ''semifinal'', m_team1 = tc, m_team2 = td,
               m_status = Some ''scheduled'', m_created_at = Some (clock w !! 1),
               m_result = None\<rparr>]"
    by (simp add: add_match_def)
  from m get_team_by_country_Some [OF assms(4)] get_team_by_country_Some [OF assms(5)]
    get_team_by_country_Some [OF assms(6)] get_team_by_country_Some [OF assms(7)]
    progress_idempotent [of w]
  show ?thesis by simp
qed

lemma played_sorted:
  "sort_key created_key (in_round ''quarterfinal'' (matches world_quarterfinals_played)) =
     [completed_quarterfinal ''Algeria'' ''Benin'' ''09:01'' ''Algeria'',
      completed_quarterfinal ''Chad'' ''Egypt'' ''09:02'' ''Chad'',
      completed_quarterfinal ''Ghana'' ''Kenya'' ''09:03'' ''Ghana'',
      completed_quarterfinal ''Mali'' ''Niger'' ''09:04'' ''Mali'']"
proof -
  have k: "created_key (completed_quarterfinal a b stamp x) = stamp" for a b stamp x
    by (simp add: created_key_def completed_quarterfinal_def)
  have r: "m_round (completed_quarterfinal a b stamp x) = Some ''quarterfinal''" for a b stamp x
    by (simp add: completed_quarterfinal_def)
  show ?thesis
    by (simp add: world_quarterfinals_played_def in_round_def r k)
qed

theorem semifinals_from_quarterfinals_witness:
  "map (\<lambda>m. (m_round m, country (m_team1 m), country (m_team2 m), m_status m, m_created_at m))
     (matches (progress_tournament_if_ready world_quarterfinals_played)) =
     map (\<lambda>m. (m_round m, country (m_team1 m), country (m_team2 m), m_status m, m_created_at m))
       (matches world_quarterfinals_played) @
     [(Some ''semifinal'', ''Algeria'', ''Chad'', Some ''scheduled'', Some ''12:00''),
      (Some ''semifinal'', ''Ghana'', ''Mali'', Some ''scheduled'', Some ''12:01'')]"
proof -
  have s: "list_all (\<lambda>m. m_status m = Some ''completed'')
     [completed_quarterfinal ''Algeria'' ''Benin'' ''09:01'' ''Algeria'',
      completed_quarterfinal ''Chad'' ''Egypt'' ''09:02'' ''Chad'',
      completed_quarterfinal ''Ghana'' ''Kenya'' ''09:03'' ''Ghana'',
      completed_quarterfinal ''Mali'' ''Niger'' ''09:04'' ''Mali'']"
    by (simp add: completed_quarterfinal_def)
  have n: "in_round ''semifinal'' (matches world_quarterfinals_played) = []"
    by (simp add: in_round_def world_quarterfinals_played_def completed_quarterfinal_def)
  have t: "get_team_by_country (teams world_quarterfinals_played)
             (map_option winner (m_result (completed_quarterfinal a b stamp x))) =
           (if x = [] then None
            else find (\<lambda>t. country t = x) (teams world_quarterfinals_played))" for a b stamp x
    by (simp add: get_team_by_country_def completed_quarterfinal_def)
  have f: "find (\<lambda>t. country t = ''Algeria'') (teams world_quarterfinals_played) = Some (team_named ''Algeria'')"
    "find (\<lambda>t. country t = ''Chad'') (teams world_quarterfinals_played) = Some (team_named ''Chad'')"
    "find (\<lambda>t. country t = ''Ghana'') (teams world_quarterfinals_played) = Some (team_named ''Ghana'')"
    "find (\<lambda>t. country t = ''Mali'') (teams world_quarterfinals_played) = Some (team_named ''Mali'')"
    by (simp_all add: world_quarterfinals_played_def team_named_def)
  have c: "shd (clock world_quarterfinals_played) = ''12:00''"
    "shd (stl (clock world_quarterfinals_played)) = ''12:01''"
    by (simp_all add: world_quarterfinals_played_def)
  from semifinals_from_quarterfinals [OF played_sorted s n,
      of "team_named ''Algeria''" "team_named ''Chad''" "team_named ''Ghana''" "team_named ''Mali''"]
  show ?thesis by (simp add: t f c team_named_def)
qed

section \<open>Scorer entries\<close>

lemma scorer_count_simps:
  "scorer_count c [] = 0"
  "scorer_count c (xs @ ys) = scorer_count c xs + scorer_count c ys"
  "scorer_count c [s] = (if gs_team s = c then 1 else 0)"
  by (simp_all add: scorer_count_def)

lemma scorer_count_all:
  "\<forall>s \<in> set gs. gs_team s = c \<Longrightarrow> scorer_count c gs = int (length gs)"
  by (simp add: scorer_count_def)

lemma scorer_count_none:
  "\<forall>s \<in> set gs. gs_team s = c' \<Longrightarrow> c' \<noteq> c \<Longrightarrow> scorer_count c gs = 0"
  by (simp add: scorer_count_def)

lemma timeline_phase_tallied:
  assumes "timeline_phase t1 t2 m u = Inr u'" and "tallied t1 t2 u" and "country t1 \<noteq> country t2"
  shows "tallied t1 t2 u'"
  using assms(1)
proof (cases rule: timeline_phase_cases)
  case (goal att scorer g)
  from assms(3) have ne: "t1 \<noteq> t2" by auto
  from goal(1) show ?thesis
  proof
    assume "att = t1"
    with goal assms(2,3) show ?thesis
      by (simp add: tallied_def scorer_count_simps)
  next
    assume "att = t2"
    with goal assms(2,3) ne show ?thesis
      by (simp add: tallied_def scorer_count_simps)
  qed
next
  case (other evs g)
  with assms(2) show ?thesis by (simp add: tallied_def)
qed

lemma timeline_loop_tallied:
  assumes "timeline_loop t1 t2 m u = Inr u'" and "tallied t1 t2 u" and "country t1 \<noteq> country t2"
  shows "tallied t1 t2 u'"
  using assms(1,2)
proof (rule timeline_loop_invariant [where P = "tallied t1 t2"])
  show "tallied t1 t2 w'" if "tallied t1 t2 w" "timeline_phase t1 t2 k w = Inr w'" for k w w'
    using timeline_phase_tallied [OF that(2,1) assms(3)] .
  show "tallied t1 t2 (w\<lparr>v_rng := h\<rparr>)" if "tallied t1 t2 w" for w h
    using that by (simp add: tallied_def)
qed

lemma regulation_scorers:
  assumes "regulation t1 t2 detailed g = Inr v" and "country t1 \<noteq> country t2"
  shows "(\<not> detailed \<longrightarrow>
            scorer_count (country t1) (v_goal_scorers v) = v_team1_goals v \<and>
            scorer_count (country t2) (v_goal_scorers v) = v_team2_goals v) \<and>
         (detailed \<longrightarrow>
            scorer_count (country t1) (v_goal_scorers v) \<le> v_team1_goals v \<and>
            scorer_count (country t2) (v_goal_scorers v) \<le> v_team2_goals v)"
proof -
  obtain b1 b2 n1 n2 g1 where rg: "regulation_goals (rating t1) (rating t2) g = ((b1, b2, n1, n2), g1)"
    by (metis prod.exhaust)
  have rng: "0 \<le> n1 \<and> 0 \<le> n2"
    using goal_counts_bounds [of "rating t1" "rating t2" g] rg by simp
  let ?v0 = "\<lparr>v_base_goals_team1 = b1, v_base_goals_team2 = b2,
                v_team1_goals = n1, v_team2_goals = n2,
                v_goals_scored = (\<lambda>c. 0), v_match_events = [], v_goal_scorers = [],
                v_decided_by = None, v_penalty_score = None, v_used_extra_time = False,
                v_rng = g1\<rparr>"
  show ?thesis
  proof (cases detailed)
    case True
    with assms rg obtain v1 where l: "timeline_loop t1 t2 0 ?v0 = Inr v1"
      and v: "v = v1\<lparr>v_match_events := sort_key ev_minute (v_match_events v1)\<rparr>"
      by (auto simp: regulation_def split: sum.splits)
    from rng have "tallied t1 t2 ?v0" by (simp add: tallied_def scorer_count_simps)
    from timeline_loop_tallied [OF l this assms(2)] v True show ?thesis
      by (simp add: tallied_def)
  next
    case False
    with assms rg obtain v1 where a: "basic_scorers (nat n1) t1 ?v0 = Inr v1"
      and b: "basic_scorers (nat n2) t2 v1 = Inr v"
      by (auto simp: regulation_def split: sum.splits)
    from basic_scorers_result [OF a] obtain gs1 h1 where
      v1: "v1 = ?v0\<lparr>v_goal_scorers := v_goal_scorers ?v0 @ gs1, v_rng := h1\<rparr>"
      and l1: "length gs1 = nat n1" and a1: "\<forall>s \<in> set gs1. gs_team s = country t1" by blast
    from basic_scorers_result [OF b] obtain gs2 h2 where
      v2: "v = v1\<lparr>v_goal_scorers := v_goal_scorers v1 @ gs2, v_rng := h2\<rparr>"
      and l2: "length gs2 = nat n2" and a2: "\<forall>s \<in> set gs2. gs_team s = country t2" by blast
    from v1 v2 have s: "v_goal_scorers v = gs1 @ gs2" "v_team1_goals v = n1" "v_team2_goals v = n2"
      by simp_all
    from assms(2) have ne: "country t2 \<noteq> country t1" by simp
    from False rng l1 l2 show ?thesis
      by (simp add: s scorer_count_simps scorer_count_all [OF a1] scorer_count_all [OF a2]
          scorer_count_none [OF a1 assms(2)] scorer_count_none [OF a2 ne])
  qed
qed

lemma extra_time_goals_nonneg:
  "extra_time_goals b1 b2 g = ((e1, e2), g') \<Longrightarrow> 0 \<le> e1 \<and> 0 \<le> e2"
  using extra_time_counts_bounds [of b1 b2 g] by simp

lemma knockout_extra_time_scorers:
  assumes "knockout_extra_time t1 t2 detailed v = Some (Inr v')"
  shows "\<exists>e1 e2 gs1 gs2. 0 \<le> e1 \<and> 0 \<le> e2 \<and>
           v_team1_goals v' = v_team1_goals v + e1 \<and> v_team2_goals v' = v_team2_goals v + e2 \<and>
           v_goal_scorers v' = v_goal_scorers v @ gs1 @ gs2 \<and>
           (detailed \<longrightarrow> length gs1 = nat e1 \<and> length gs2 = nat e2) \<and>
           (\<not> detailed \<longrightarrow> gs1 = [] \<and> gs2 = []) \<and>
           (\<forall>s \<in> set gs1. gs_team s = country t1) \<and> (\<forall>s \<in> set gs2. gs_team s = country t2)"
proof -
  obtain extra1 extra2 g1 where e:
    "extra_time_goals (v_base_goals_team1 v) (v_base_goals_team2 v) (v_rng v) = ((extra1, extra2), g1)"
    by (metis prod.exhaust)
  note nn = extra_time_goals_nonneg [OF e]
  let ?v1 = "v\<lparr>v_used_extra_time := True, v_rng := g1\<rparr>"
  let ?ev = "if detailed
             then (case extra_time_events (nat extra1) t1 ?v1 of
                     Inl e \<Rightarrow> Inl e
                   | Inr v2 \<Rightarrow> extra_time_events (nat extra2) t2 v2)
             else Inr ?v1"
  note eq = assms [unfolded knockout_extra_time_unfold e prod.case Let_def]
  show ?thesis
  proof (cases ?ev)
    case (Inl x)
    with eq show ?thesis by simp
  next
    case (Inr v3)
    have "\<exists>gs1 gs2. v_goal_scorers v3 = v_goal_scorers v @ gs1 @ gs2 \<and>
            v_team1_goals v3 = v_team1_goals v \<and> v_team2_goals v3 = v_team2_goals v \<and>
            (detailed \<longrightarrow> length gs1 = nat extra1 \<and> length gs2 = nat extra2) \<and>
            (\<not> detailed \<longrightarrow> gs1 = [] \<and> gs2 = []) \<and>
            (\<forall>s \<in> set gs1. gs_team s = country t1) \<and> (\<forall>s \<in> set gs2. gs_team s = country t2)"
    proof (cases detailed)
      case True
      with Inr obtain v2 where a: "extra_time_events (nat extra1) t1 ?v1 = Inr v2"
        and b: "extra_time_events (nat extra2) t2 v2 = Inr v3"
        by (auto split: sum.splits)
      from extra_time_events_result [OF a] obtain ev1 gs1 h1 where
        v2: "v2 = ?v1\<lparr>v_match_events := v_match_events ?v1 @ ev1,
                       v_goal_scorers := v_goal_scorers ?v1 @ gs1, v_rng := h1\<rparr>"
        and l1: "length gs1 = nat extra1" and a1: "\<forall>s \<in> set gs1. gs_team s = country t1"
        by blast
      from extra_time_events_result [OF b] obtain ev2 gs2 h2 where
        v3: "v3 = v2\<lparr>v_match_events := v_match_events v2 @ ev2,
                      v_goal_scorers := v_goal_scorers v2 @ gs2, v_rng := h2\<rparr>"
        and l2: "length gs2 = nat extra2" and a2: "\<forall>s \<in> set gs2. gs_team s = country t2"
        by blast
      from v2 v3 have "v_goal_scorers v3 = v_goal_scorers v @ gs1 @ gs2"
        "v_team1_goals v3 = v_team1_goals v" "v_team2_goals v3 = v_team2_goals v"
        by simp_all
      with True l1 l2 a1 a2 show ?thesis by blast
    next
      case False
      with Inr have "v3 = ?v1" by simp
      then have "v_goal_scorers v3 = v_goal_scorers v @ [] @ []"
        "v_team1_goals v3 = v_team1_goals v" "v_team2_goals v3 = v_team2_goals v"
        by simp_all
      with False show ?thesis by (intro exI [of _ "[]"]) simp
    qed
    then obtain gs1 gs2 where s3: "v_goal_scorers v3 = v_goal_scorers v @ gs1 @ gs2"
      "v_team1_goals v3 = v_team1_goals v" "v_team2_goals v3 = v_team2_goals v"
      "detailed \<longrightarrow> length gs1 = nat extra1 \<and> length gs2 = nat extra2"
      "\<not> detailed \<longrightarrow> gs1 = [] \<and> gs2 = []"
      "\<forall>s \<in> set gs1. gs_team s = country t1" "\<forall>s \<in> set gs2. gs_team s = country t2"
      by blast
    let ?v4 = "v3\<lparr>v_team1_goals := v_team1_goals v3 + extra1,
                   v_team2_goals := v_team2_goals v3 + extra2\<rparr>"
    have "v_team1_goals v' = v_team1_goals ?v4 \<and> v_team2_goals v' = v_team2_goals ?v4 \<and>
          v_goal_scorers v' = v_goal_scorers ?v4"
    proof (cases "v_team1_goals v3 + extra1 \<noteq> v_team2_goals v3 + extra2")
      case True
      with eq Inr have "v' = ?v4\<lparr>v_decided_by := Some ''extra_time''\<rparr>"
        by simp
      then show ?thesis by simp
    next
      case False
      with eq Inr have "penalty_shootout t1 t2 detailed ?v4 = Some v'"
        by auto
      from penalty_shootout_result [OF this] show ?thesis by auto
    qed
    with s3 nn show ?thesis
      by (intro exI [of _ extra1] exI [of _ extra2] exI [of _ gs1] exI [of _ gs2]) simp
  qed
qed

text \<open>
  Claim C4, as the code has it, for two teams with different names. In non-detailed mode
  without extra time each team has exactly as many scorer entries as goals in the final
  score. In detailed mode a team never has more entries than goals: the timeline ends at
  minute 90 whether or not every goal of the target has got its event.
\<close>

theorem goal_scorer_counts:
  assumes "simulate_match team1_data team2_data detailed knockout g = Some (Inr r)"
    and "country team1_data \<noteq> country team2_data"
  shows "(\<not> detailed \<and> \<not> extra_time r \<longrightarrow>
            scorer_count (country team1_data) (goal_scorers r) = team1_goals r \<and>
            scorer_count (country team2_data) (goal_scorers r) = team2_goals r) \<and>
         (detailed \<longrightarrow>
            scorer_count (country team1_data) (goal_scorers r) \<le> team1_goals r \<and>
            scorer_count (country team2_data) (goal_scorers r) \<le> team2_goals r)"
  using assms(1)
proof (cases rule: simulate_match_cases)
  case (direct v)
  note f = match_result_of_fields [OF direct(3)]
  from regulation_scorers [OF direct(1) assms(2)] show ?thesis by (simp add: f)
next
  case (extra v v')
  note f = match_result_of_fields [OF extra(5)]
  from knockout_extra_time_result [OF extra(4)] have x: "extra_time r" by (simp add: f)
  from knockout_extra_time_scorers [OF extra(4)] obtain e1 e2 gs1 gs2 where
    k: "0 \<le> e1" "0 \<le> e2" "v_team1_goals v' = v_team1_goals v + e1"
      "v_team2_goals v' = v_team2_goals v + e2"
      "v_goal_scorers v' = v_goal_scorers v @ gs1 @ gs2"
      "detailed \<longrightarrow> length gs1 = nat e1 \<and> length gs2 = nat e2"
    and a1: "\<forall>s \<in> set gs1. gs_team s = country team1_data"
    and a2: "\<forall>s \<in> set gs2. gs_team s = country team2_data"
    by blast
  from assms(2) have ne: "country team2_data \<noteq> country team1_data" by simp
  from regulation_scorers [OF extra(1) assms(2)] k x show ?thesis
    by (auto simp add: f scorer_count_simps scorer_count_all [OF a1] scorer_count_all [OF a2]
        scorer_count_none [OF a1 assms(2)] scorer_count_none [OF a2 ne])
qed

theorem goal_scorer_counts_witness:
  "simulate_match ghana mali False False tape_2_1 = Some (Inr result_2_1) \<and>
   country ghana \<noteq> country mali \<and> \<not> extra_time result_2_1 \<and>
   scorer_count (country ghana) (goal_scorers result_2_1) = 2 \<and> team1_goals result_2_1 = 2 \<and>
   scorer_count (country mali) (goal_scorers result_2_1) = 1 \<and> team2_goals result_2_1 = 1"
proof -
  have ne: "country ghana \<noteq> country mali" by (simp add: countries)
  from goal_scorer_counts [OF run_2_1 ne] run_2_1 ne show ?thesis
    by (simp add: result_2_1_def)
qed

lemma quiet_phase:
  assumes "v_rng u = sconst (17 / 2)"
  shows "timeline_phase ghana mali m u = Inr u"
proof -
  have c: "choice [ghana, mali] (sconst (17 / 2)) = Inr (ghana, sconst (17 / 2))"
    by (simp add: choice_def randbelow_def)
  have r: "random_py (sconst (17 / 2)) = (1 / 2, sconst (17 / 2))"
    by (simp add: random_py_def frac_def)
  have u: "u\<lparr>v_rng := sconst (17 / 2)\<rparr> = u"
    using assms by (cases u) simp
  show ?thesis
    unfolding timeline_phase_def assms c r sum.case prod.case Let_def
    by (simp add: u)
qed

lemma quiet_loop_step:
  assumes "v_rng u = sconst (17 / 2)" and "m < 90" and "m + 10 \<le> 90"
    and "v_goals_scored u (country ghana) < v_team1_goals u"
  shows "timeline_loop ghana mali m u = timeline_loop ghana mali (m + 10) u"
proof -
  have r: "randint 2 10 (sconst (17 / 2)) = (10, sconst (17 / 2))"
    by (simp add: randint_def randbelow_def)
  have u: "u\<lparr>v_rng := sconst (17 / 2)\<rparr> = u"
    using assms(1) by (cases u) simp
  from assms(3) have n: "\<not> 90 < m + 10" by simp
  show ?thesis
    by (subst timeline_loop.simps) (simp add: assms(1,2,4) n r u quiet_phase Let_def)
qed

lemma quiet_loop:
  assumes "v_rng u = sconst (17 / 2)"
    and "v_goals_scored u (country ghana) < v_team1_goals u"
  shows "timeline_loop ghana mali 0 u = Inr u"
proof -
  have "timeline_loop ghana mali 0 u = timeline_loop ghana mali 90 u"
    using assms by (simp add: quiet_loop_step)
  also have "\<dots> = Inr u"
    by (subst timeline_loop.simps) simp
  finally show ?thesis .
qed

lemma run_quiet: "simulate_match ghana mali True False tape_quiet = Some (Inr result_quiet)"
proof -
  have r: "rating ghana = 70" "rating mali = 70"
    by (simp_all add: ghana_def mali_def)
  have g: "regulation_goals 70 70 (0.5 ## 0.5 ## 1 ## 0 ## sconst 8.5)
            = ((3 / 2, 3 / 2, 1, 0), sconst (17 / 2))"
    by (simp add: regulation_goals_SCons py_round_def)
  let ?v0 = "\<lparr>v_base_goals_team1 = 3 / 2, v_base_goals_team2 = 3 / 2,
                v_team1_goals = 1, v_team2_goals = 0,
                v_goals_scored = (\<lambda>c. 0), v_match_events = [], v_goal_scorers = [],
                v_decided_by = None, v_penalty_score = None, v_used_extra_time = False,
                v_rng = sconst (17 / 2)\<rparr>"
  have l: "timeline_loop ghana mali 0 ?v0 = Inr ?v0"
    by (rule quiet_loop) simp_all
  have reg: "regulation ghana mali True tape_quiet = Inr ?v0"
    unfolding regulation_def tape_quiet_def r g prod.case Let_def
    by (simp add: l)
  show ?thesis
    unfolding simulate_match_def reg
    by (simp add: match_result_of_def winner_of_def result_quiet_def countries str_int_digit
        digit_char_def)
qed

text \<open>
  Claim C4 as stated fails in detailed mode: in the run below Ghana wins 1-0, every phase
  of the timeline passes without an event, and the goal has no scorer entry.
\<close>

theorem goal_without_scorer_counterexample:
  "simulate_match ghana mali True False tape_quiet = Some (Inr result_quiet) \<and>
   team1_goals result_quiet = 1 \<and>
   scorer_count (country ghana) (goal_scorers result_quiet) = 0 \<and>
   goal_scorers result_quiet = []"
  using run_quiet by (simp add: result_quiet_def scorer_count_simps)

section \<open>Order of the events\<close>

lemma basic_scorers_events: "basic_scorers n t v = Inr v' \<Longrightarrow> v_match_events v' = v_match_events v"
  by (drule basic_scorers_result) auto

lemma regulation_events_sorted:
  assumes "regulation t1 t2 detailed g = Inr v"
  shows "sorted (map ev_minute (v_match_events v))"
proof -
  obtain b1 b2 n1 n2 g1 where rg: "regulation_goals (rating t1) (rating t2) g = ((b1, b2, n1, n2), g1)"
    by (metis prod.exhaust)
  show ?thesis
  proof (cases detailed)
    case True
    with assms rg obtain v1 where
      "v = v1\<lparr>v_match_events := sort_key ev_minute (v_match_events v1)\<rparr>"
      by (auto simp: regulation_def split: sum.splits)
    then show ?thesis by simp
  next
    case False
    let ?v0 = "\<lparr>v_base_goals_team1 = b1, v_base_goals_team2 = b2,
                  v_team1_goals = n1, v_team2_goals = n2,
                  v_goals_scored = (\<lambda>c. 0), v_match_events = [], v_goal_scorers = [],
                  v_decided_by = None, v_penalty_score = None, v_used_extra_time = False,
                  v_rng = g1\<rparr>"
    from False assms rg obtain v1 where a: "basic_scorers (nat n1) t1 ?v0 = Inr v1"
      and b: "basic_scorers (nat n2) t2 v1 = Inr v"
      by (auto simp: regulation_def split: sum.splits)
    from basic_scorers_events [OF a] basic_scorers_events [OF b] show ?thesis by simp
  qed
qed

lemma events_sorted_without_extra_time:
  assumes "simulate_match t1 t2 detailed knockout g = Some (Inr r)" and "\<not> extra_time r"
  shows "sorted (map ev_minute (events r))"
  using assms(1)
proof (cases rule: simulate_match_cases)
  case (direct v)
  from regulation_events_sorted [OF direct(1)] match_result_of_fields [OF direct(3)]
  show ?thesis by simp
next
  case (extra v v')
  from knockout_extra_time_result [OF extra(4)] match_result_of_fields [OF extra(5)] assms(2)
  show ?thesis by simp
qed

lemma run_unsorted:
  "simulate_match ghana mali True True tape_unsorted = Some (Inr result_unsorted)"
proof -
  have r: "rating ghana = 70" "rating mali = 70"
    by (simp_all add: ghana_def mali_def)
  have g: "regulation_goals 70 70 (0.5 ## 0.5 ## 0 ## 0 ## h) = ((3 / 2, 3 / 2, 0, 0), h)" for h
    by (simp add: regulation_goals_SCons py_round_def)
  let ?t = "2 ## 0 ## 19 ## 0 ## 4 ## 0 ## sconst 0"
  let ?v0 = "\<lparr>v_base_goals_team1 = 3 / 2, v_base_goals_team2 = 3 / 2,
                v_team1_goals = 0, v_team2_goals = 0,
                v_goals_scored = (\<lambda>c. 0), v_match_events = [], v_goal_scorers = [],
                v_decided_by = None, v_penalty_score = None, v_used_extra_time = False,
                v_rng = ?t\<rparr>"
  have l: "timeline_loop ghana mali 0 ?v0 = Inr ?v0"
    by (subst timeline_loop.simps) simp
  have reg: "regulation ghana mali True tape_unsorted = Inr ?v0"
    unfolding regulation_def tape_unsorted_def r g prod.case Let_def
    by (simp add: l)
  have e: "extra_time_goals b1 b2 (2 ## 0 ## h) = ((2, 0), h)" for b1 b2 h
    by (simp add: extra_time_goals_SCons py_round_def)
  show ?thesis
    unfolding simulate_match_def reg
    by (simp add: knockout_extra_time_unfold e numeral_2_eq_2 randint_SCons choice_SCons mid_att_ghana
        squad_player_fields
        match_result_of_def winner_of_def result_unsorted_def countries str_int_digit
        digit_char_def)
qed

text \<open>
  Claim C1 at a knockout match that goes to extra time in detailed mode: the two
  extra-time goals are drawn at minutes 110 and 95 and are appended in that order, after
  the sort of line 179, so the returned event list is not ordered by minute.
\<close>

theorem extra_time_events_unsorted:
  "simulate_match ghana mali True True tape_unsorted = Some (Inr result_unsorted) \<and>
   map ev_minute (events result_unsorted) = [110, 95] \<and>
   \<not> sorted (map ev_minute (events result_unsorted))"
  using run_unsorted by (simp add: result_unsorted_def)

end
